theory Spec2Isabelle
  imports Complex_Main
begin

section \<open>JavaScript values and the object heap\<close>

text \<open>
  The marketplace provider manipulates plain JavaScript objects. Objects are
  reference values: two variables may denote the same object, and an assignment
  through one is visible through the other. The marker function of the provider
  copies its argument with an object spread and then assigns into the copy, so
  the model keeps an explicit heap of objects addressed by natural numbers.

  Scope of the value model: \<open>undefined\<close>, \<open>null\<close>, booleans, numbers, strings,
  references to plain objects (objects created by an object literal or by the
  validator: their prototype is \<open>Object.prototype\<close> and their own properties
  are enumerable data properties), and the members of the built-in prototypes
  of the runtime. A property read goes through the prototype chain, so
  \<open>result['toString']\<close> is a function although no record has such a field; the
  model keeps such a value as an opaque built-in, named by the place where the
  read found it. Numbers are modelled as reals (the marker only tests a number
  for being zero; \<open>NaN\<close> is not represented), strings as lists of characters
  (the marker tests a string for being empty and reads its properties).
\<close>

type_synonym addr = nat

datatype jsval =
    JUndefined
  | JNull
  | JBool bool
  | JNum real
  | JStr string
  | JRef addr
  | JBuiltin string

type_synonym obj = "string \<rightharpoonup> jsval"

record heap =
  cells :: "addr \<Rightarrow> obj"
  used :: nat

text \<open>
  Errors raised by the JavaScript runtime itself: a \<open>TypeError\<close> for a property
  access or assignment the base value does not admit. It records the kind of the
  base value and the property name; the message text is the engine's.

  \<open>Intrinsic k\<close> is not an error of the program. It ends a run of the model at
  the point where the code goes on inside the objects of the runtime itself,
  which the heap below does not hold: the code runs the accessor \<open>__proto__\<close>
  (which reads and rebinds the prototype of an object), or it reads a property
  \<open>k\<close> of a built-in function or prototype.
\<close>

datatype js_error = TypeError string string | Intrinsic string

fun type_name :: "jsval \<Rightarrow> string" where
  "type_name JUndefined = ''undefined''"
| "type_name JNull = ''null''"
| "type_name (JBool b) = ''boolean''"
| "type_name (JNum n) = ''number''"
| "type_name (JStr s) = ''string''"
| "type_name (JRef a) = ''object''"
| "type_name (JBuiltin b) = ''function''"

text \<open>Allocation of a fresh object (an object literal): the next unused address.\<close>

definition alloc :: "heap \<Rightarrow> obj \<Rightarrow> heap \<times> addr" where
  "alloc h ob = (h\<lparr>cells := (cells h)(used h := ob), used := Suc (used h)\<rparr>, used h)"

text \<open>Truthiness (\<open>ToBoolean\<close>) as tested by \<open>if (v)\<close> and \<open>a && b\<close>.\<close>

fun truthy :: "jsval \<Rightarrow> bool" where
  "truthy JUndefined = False"
| "truthy JNull = False"
| "truthy (JBool b) = b"
| "truthy (JNum n) = (n \<noteq> 0)"
| "truthy (JStr s) = (s \<noteq> [])"
| "truthy (JRef a) = True"
| "truthy (JBuiltin b) = True"

text \<open>
  A string primitive has the own properties \<open>length\<close> and one property per
  character position, named by the canonical decimal numeral of the position.
\<close>

definition digit_val :: "char \<Rightarrow> nat" where
  "digit_val c = of_char c - 48"

definition is_digit :: "char \<Rightarrow> bool" where
  "is_digit c = (c \<in> set ''0123456789'')"

definition array_index :: "string \<Rightarrow> nat option" where
  "array_index k =
     (if k \<noteq> [] \<and> list_all is_digit k \<and> (hd k \<noteq> CHR ''0'' \<or> k = ''0'')
      then Some (foldl (\<lambda>n c. 10 * n + digit_val c) 0 k)
      else None)"

text \<open>
  The data properties with a string name that the built-in prototypes of the
  language provide (ECMAScript 2024 with its annex for web browsers, which the
  Node.js runtime implements). All of them are functions, hence truthy, and
  writable. \<open>Object.prototype\<close> has one more property, the accessor
  \<open>__proto__\<close>, which is treated apart.
\<close>

definition object_prototype :: "string list" where
  "object_prototype =
     [''constructor'', ''hasOwnProperty'', ''isPrototypeOf'', ''propertyIsEnumerable'',
      ''toLocaleString'', ''toString'', ''valueOf'', ''__defineGetter__'',
      ''__defineSetter__'', ''__lookupGetter__'', ''__lookupSetter__'']"

definition string_prototype :: "string list" where
  "string_prototype =
     [''constructor'', ''anchor'', ''at'', ''big'', ''blink'', ''bold'', ''charAt'',
      ''charCodeAt'', ''codePointAt'', ''concat'', ''endsWith'', ''fixed'', ''fontcolor'',
      ''fontsize'', ''includes'', ''indexOf'', ''isWellFormed'', ''italics'',
      ''lastIndexOf'', ''link'', ''localeCompare'', ''match'', ''matchAll'', ''normalize'',
      ''padEnd'', ''padStart'', ''repeat'', ''replace'', ''replaceAll'', ''search'',
      ''slice'', ''small'', ''split'', ''startsWith'', ''strike'', ''sub'', ''substr'',
      ''substring'', ''sup'', ''toLocaleLowerCase'', ''toLocaleUpperCase'',
      ''toLowerCase'', ''toString'', ''toUpperCase'', ''toWellFormed'', ''trim'',
      ''trimEnd'', ''trimLeft'', ''trimRight'', ''trimStart'', ''valueOf'']"

definition number_prototype :: "string list" where
  "number_prototype =
     [''constructor'', ''toExponential'', ''toFixed'', ''toLocaleString'', ''toPrecision'',
      ''toString'', ''valueOf'']"

definition boolean_prototype :: "string list" where
  "boolean_prototype = [''constructor'', ''toString'', ''valueOf'']"

text \<open>
  The prototype chain of the values of a kind (the kinds are those of
  \<open>type_name\<close>): each prototype with its name.
\<close>

definition prototypes :: "string \<Rightarrow> (string \<times> string list) list" where
  "prototypes kind =
     (if kind = ''object'' then [(''Object.prototype'', object_prototype)]
      else if kind = ''string'' then
        [(''String.prototype'', string_prototype), (''Object.prototype'', object_prototype)]
      else if kind = ''number'' then
        [(''Number.prototype'', number_prototype), (''Object.prototype'', object_prototype)]
      else if kind = ''boolean'' then
        [(''Boolean.prototype'', boolean_prototype), (''Object.prototype'', object_prototype)]
      else [])"

fun find_member :: "(string \<times> string list) list \<Rightarrow> string \<Rightarrow> jsval" where
  "find_member [] k = JUndefined"
| "find_member ((p, ks) # ps) k =
     (if k \<in> set ks then JBuiltin (p @ ''.'' @ k) else find_member ps k)"

text \<open>What a value of a kind that has no own property \<open>k\<close> inherits under that name.\<close>

definition inherited :: "string \<Rightarrow> string \<Rightarrow> jsval" where
  "inherited kind k = find_member (prototypes kind) k"

text \<open>
  Property read \<open>v[k]\<close> of a data property: the own property, else the member
  that the prototype chain provides, else \<open>undefined\<close>. The marker reads a
  property of \<open>undefined\<close> or \<open>null\<close> nowhere (both reads of a nested value are
  guarded by the truthiness of the parent), and the model ends a run before it
  would read a property of a built-in value.
\<close>

fun get_prop :: "heap \<Rightarrow> jsval \<Rightarrow> string \<Rightarrow> jsval" where
  "get_prop h (JRef a) k =
     (case cells h a k of None \<Rightarrow> inherited ''object'' k | Some v \<Rightarrow> v)"
| "get_prop h (JStr s) k =
     (if k = ''length'' then JNum (real (length s))
      else (case array_index k of
              Some i \<Rightarrow> if i < length s then JStr [s ! i] else inherited ''string'' k
            | None \<Rightarrow> inherited ''string'' k))"
| "get_prop h (JNum n) k = inherited ''number'' k"
| "get_prop h (JBool b) k = inherited ''boolean'' k"
| "get_prop h v k = JUndefined"

text \<open>
  \<open>v[k]\<close> runs the accessor \<open>__proto__\<close> of \<open>Object.prototype\<close>: the name is
  \<open>__proto__\<close> and the value has no own property of that name (a plain object
  can have one, a primitive value cannot). The read gives the prototype of the
  value, which is an object and truthy; the assignment rebinds the prototype of
  an object and inserts no key.
\<close>

definition runs_accessor :: "heap \<Rightarrow> jsval \<Rightarrow> string \<Rightarrow> bool" where
  "runs_accessor h v k \<longleftrightarrow>
     k = ''__proto__'' \<and>
     (case v of
        JRef a \<Rightarrow> cells h a k = None
      | JStr s \<Rightarrow> True
      | JNum n \<Rightarrow> True
      | JBool b \<Rightarrow> True
      | _ \<Rightarrow> False)"

fun is_builtin :: "jsval \<Rightarrow> bool" where
  "is_builtin (JBuiltin b) = True"
| "is_builtin v = False"

text \<open>
  Property assignment \<open>v[k] = x\<close> of a data property in strict-mode code (a
  class body is always strict): it updates the object a reference denotes, in
  place (a member that the object inherited so far becomes an own property),
  and raises a \<open>TypeError\<close> when the base is a primitive value.
\<close>

fun put_prop :: "heap \<Rightarrow> jsval \<Rightarrow> string \<Rightarrow> jsval \<Rightarrow> (js_error + unit) \<times> heap" where
  "put_prop h (JRef a) k x = (Inr (), h\<lparr>cells := (cells h)(a := (cells h a)(k \<mapsto> x))\<rparr>)"
| "put_prop h (JBuiltin b) k x = (Inl (Intrinsic k), h)"
| "put_prop h v k x = (Inl (TypeError (type_name v) k), h)"

section \<open>The field-encryption marker\<close>

text \<open>\<open>field.includes('.')\<close> and \<open>field.split('.')\<close>.\<close>

definition includes_dot :: "string \<Rightarrow> bool" where
  "includes_dot field = (CHR ''.'' \<in> set field)"

fun split_dot :: "string \<Rightarrow> string list" where
  "split_dot [] = [[]]"
| "split_dot (c # cs) =
     (if c = CHR ''.'' then [] # split_dot cs
      else (case split_dot cs of
              [] \<Rightarrow> [[c]]
            | w # ws \<Rightarrow> (c # w) # ws))"

text \<open>The wrapper object literal \<open>{ '%allot': v }\<close>.\<close>

definition allot :: "jsval \<Rightarrow> obj" where
  "allot v = [''%allot'' \<mapsto> v]"

text \<open>
  One iteration of the loop of \<open>prepareDataForEncryption\<close>, on the copy at
  address \<open>r\<close>. The destructuring \<open>[parent, child] = field.split('.')\<close> takes the
  first two components. The run ends with \<open>Intrinsic\<close> where a property access
  of the iteration would run the accessor \<open>__proto__\<close>, or where the parent of
  a nested path is a built-in value.
\<close>

definition mark_field :: "addr \<Rightarrow> heap \<Rightarrow> string \<Rightarrow> (js_error + unit) \<times> heap" where
  "mark_field r h field =
     (if includes_dot field then
        (case split_dot field of
           parent # child # rest \<Rightarrow>
             (if runs_accessor h (JRef r) parent then (Inl (Intrinsic parent), h)
              else
                (let pv = get_prop h (JRef r) parent in
                 if truthy pv then
                   (if is_builtin pv \<or> runs_accessor h pv child then (Inl (Intrinsic child), h)
                    else if truthy (get_prop h pv child) then
                      (case alloc h (allot (get_prop h pv child)) of
                         (h', w) \<Rightarrow> put_prop h' pv child (JRef w))
                    else (Inr (), h))
                 else (Inr (), h)))
         | _ \<Rightarrow> (Inr (), h))
      else if runs_accessor h (JRef r) field then (Inl (Intrinsic field), h)
      else if truthy (get_prop h (JRef r) field) then
        (case alloc h (allot (get_prop h (JRef r) field)) of
           (h', w) \<Rightarrow> put_prop h' (JRef r) field (JRef w))
      else (Inr (), h))"

text \<open>The \<open>for ... of\<close> loop: it stops at the first error.\<close>

fun mark_fields :: "addr \<Rightarrow> heap \<Rightarrow> string list \<Rightarrow> (js_error + unit) \<times> heap" where
  "mark_fields r h [] = (Inr (), h)"
| "mark_fields r h (field # rest) =
     (case mark_field r h field of
        (Inl e, h') \<Rightarrow> (Inl e, h')
      | (Inr u, h') \<Rightarrow> mark_fields r h' rest)"

text \<open>
  \<open>prepareDataForEncryption(data, encryptedFields)\<close>: \<open>data\<close> is the address of the
  record. \<open>{ ...data }\<close> allocates a new object with the same own properties;
  property values that are references are copied as references.
\<close>

definition prepareDataForEncryption ::
  "heap \<Rightarrow> addr \<Rightarrow> string list \<Rightarrow> (js_error + addr) \<times> heap" where
  "prepareDataForEncryption h data encryptedFields =
     (case alloc h (cells h data) of
        (h1, result) \<Rightarrow>
          (case mark_fields result h1 encryptedFields of
             (Inl e, h') \<Rightarrow> (Inl e, h')
           | (Inr u, h') \<Rightarrow> (Inr result, h')))"

subsection \<open>Paths and slots\<close>

text \<open>
  How the loop reads a listed string: a string without a dot names a top-level
  field, a string with a dot names the field \<open>child\<close> of the field \<open>parent\<close>.
\<close>

datatype path = Top string | Nested string string

definition path_of :: "string \<Rightarrow> path" where
  "path_of field =
     (if includes_dot field then
        (case split_dot field of
           parent # child # rest \<Rightarrow> Nested parent child
         | _ \<Rightarrow> Top field)
      else Top field)"

text \<open>
  The slot (object address and property name) an iteration assigns to, when the
  copy is at address \<open>r\<close>: for a nested path it lies in the object the parent
  field refers to.
\<close>

definition target :: "addr \<Rightarrow> heap \<Rightarrow> string \<Rightarrow> (addr \<times> string) option" where
  "target r h field =
     (case path_of field of
        Top f \<Rightarrow> Some (r, f)
      | Nested p c \<Rightarrow> (case get_prop h (JRef r) p of JRef a \<Rightarrow> Some (a, c) | _ \<Rightarrow> None))"

fun targets :: "addr \<Rightarrow> heap \<Rightarrow> string list \<Rightarrow> (addr \<times> string) list" where
  "targets r h [] = []"
| "targets r h (f # fs) =
     (case target r h f of None \<Rightarrow> targets r h fs | Some s \<Rightarrow> s # targets r h fs)"

text \<open>Wrapping the value of one slot, when it is truthy.\<close>

definition wrap_slot :: "heap \<Rightarrow> addr \<times> string \<Rightarrow> heap" where
  "wrap_slot h s =
     (case s of (a, k) \<Rightarrow>
        if truthy (get_prop h (JRef a) k)
        then snd (put_prop (fst (alloc h (allot (get_prop h (JRef a) k)))) (JRef a) k (JRef (used h)))
        else h)"

fun wrap_slots :: "heap \<Rightarrow> (addr \<times> string) list \<Rightarrow> heap" where
  "wrap_slots h [] = h"
| "wrap_slots h (s # ss) = wrap_slots (wrap_slot h s) ss"

text \<open>
  \<open>marked h src h' dst\<close>: the slot \<open>dst\<close> of the heap \<open>h'\<close> holds the marked form of
  the value \<open>v\<close> that a read of the slot \<open>src\<close> gave in \<open>h\<close> (the own property, or
  the member the object inherits under that name). When \<open>v\<close> is truthy this is
  a reference to an object allocated after \<open>h\<close> whose only property is
  \<open>'%allot'\<close> with value \<open>v\<close>; when \<open>v\<close> is falsy (also: the property is absent
  and nothing is inherited under its name) the slot is as it was, so an absent
  property stays absent.
\<close>

definition marked :: "heap \<Rightarrow> addr \<times> string \<Rightarrow> heap \<Rightarrow> addr \<times> string \<Rightarrow> bool" where
  "marked h src h' dst \<longleftrightarrow>
     (if truthy (get_prop h (JRef (fst src)) (snd src))
      then (\<exists>w. used h \<le> w \<and> w < used h' \<and>
              cells h' (fst dst) (snd dst) = Some (JRef w) \<and>
              cells h' w = allot (get_prop h (JRef (fst src)) (snd src)))
      else cells h' (fst dst) (snd dst) = cells h (fst src) (snd src))"

text \<open>
  The parent values with which the iteration for a nested path ends inside the
  heap and without an error: an object of the heap; a falsy value (the child is
  not read); a primitive value of which the child is not a truthy member, own
  (the length of a string, one of its characters) or inherited (a method of
  its prototype). A built-in value is none of them.
\<close>

fun plain_parent :: "heap \<Rightarrow> jsval \<Rightarrow> string \<Rightarrow> bool" where
  "plain_parent h (JRef a) c = True"
| "plain_parent h (JBuiltin b) c = False"
| "plain_parent h pv c = (\<not> truthy pv \<or> \<not> truthy (get_prop h pv c))"

text \<open>
  Side condition on the paths of a list, for the copy at address \<open>r\<close>: no
  component of a path is \<open>__proto__\<close>; the parent of a nested path is not
  listed itself, is a parent as above, and is not the copy.
\<close>

definition nested_ok :: "addr \<Rightarrow> heap \<Rightarrow> string list \<Rightarrow> bool" where
  "nested_ok r h fs \<longleftrightarrow>
     (\<forall>f. Top f \<in> path_of ` set fs \<longrightarrow> f \<noteq> ''__proto__'') \<and>
     (\<forall>p c. Nested p c \<in> path_of ` set fs \<longrightarrow>
        Top p \<notin> path_of ` set fs \<and> p \<noteq> ''__proto__'' \<and> c \<noteq> ''__proto__'' \<and>
        plain_parent h (get_prop h (JRef r) p) c \<and>
        (\<forall>a. get_prop h (JRef r) p = JRef a \<longrightarrow> a \<noteq> r))"

text \<open>A record with a confidential field holding the empty string, and a nested block.\<close>

definition example_listing :: heap where
  "example_listing =
     \<lparr>cells = (\<lambda>a. Map.empty)
        (0 := [''provider_name'' \<mapsto> JStr ''Ana'', ''contact_info'' \<mapsto> JStr '''',
               ''service_details'' \<mapsto> JRef 1],
         1 := [''title'' \<mapsto> JStr ''Spanish'']),
      used = 2\<rparr>"

section \<open>Plain data values\<close>

text \<open>
  Values that only travel (the input of a validator, the configuration of the
  connection, what the storage service returns) are immutable trees. An object
  is the list of its properties in insertion order, with distinct names.
\<close>

datatype jv =
    VUndefined
  | VNull
  | VBool bool
  | VNum real
  | VStr string
  | VArr "jv list"
  | VObj "(string \<times> jv) list"

text \<open>
  Property read on such a value, for the fixed names the provider reads (none of
  them is \<open>length\<close> or an index, so a string or an array has none of them).
\<close>

fun jv_get :: "jv \<Rightarrow> string \<Rightarrow> js_error + jv" where
  "jv_get VUndefined k = Inl (TypeError ''undefined'' k)"
| "jv_get VNull k = Inl (TypeError ''null'' k)"
| "jv_get (VObj kvs) k = Inr (case map_of kvs k of None \<Rightarrow> VUndefined | Some v \<Rightarrow> v)"
| "jv_get v k = Inr VUndefined"

text \<open>\<open>v[k1][k2]\<close>.\<close>

definition jv_get2 :: "jv \<Rightarrow> string \<Rightarrow> string \<Rightarrow> js_error + jv" where
  "jv_get2 v k1 k2 = (case jv_get v k1 of Inl e \<Rightarrow> Inl e | Inr x \<Rightarrow> jv_get x k2)"

subsection \<open>Text\<close>

definition newline :: string where
  "newline = [CHR 0x0A]"

definition dquote :: char where
  "dquote = CHR 0x22"

definition backslash :: char where
  "backslash = CHR 0x5C"

definition digit_char :: "nat \<Rightarrow> char" where
  "digit_char n = char_of (48 + n)"

text \<open>The decimal numeral of an array length.\<close>

fun nat_text :: "nat \<Rightarrow> string" where
  "nat_text n = (if n < 10 then [digit_char n] else nat_text (n div 10) @ [digit_char (n mod 10)])"

fun join :: "string \<Rightarrow> string list \<Rightarrow> string" where
  "join sep [] = []"
| "join sep [x] = x"
| "join sep (x # y # ys) = x @ sep @ join sep (y # ys)"

text \<open>
  String conversion in a template literal. The text of a number is the
  runtime's (floating point), taken as the parameter \<open>num\<close>.
\<close>

fun to_text :: "(real \<Rightarrow> string) \<Rightarrow> jv \<Rightarrow> string"
  and to_text_items :: "(real \<Rightarrow> string) \<Rightarrow> jv list \<Rightarrow> string list"
where
  "to_text num VUndefined = ''undefined''"
| "to_text num VNull = ''null''"
| "to_text num (VBool b) = (if b then ''true'' else ''false'')"
| "to_text num (VNum n) = num n"
| "to_text num (VStr s) = s"
| "to_text num (VArr xs) = join '','' (to_text_items num xs)"
| "to_text num (VObj kvs) = ''[object Object]''"
| "to_text_items num [] = []"
| "to_text_items num (x # xs) =
     (case x of VUndefined \<Rightarrow> [] | VNull \<Rightarrow> [] | _ \<Rightarrow> to_text num x) # to_text_items num xs"

subsection \<open>\<open>JSON.stringify(value, null, 2)\<close>\<close>

definition hex_char :: "nat \<Rightarrow> char" where
  "hex_char n = ''0123456789abcdef'' ! (n mod 16)"

definition json_escape :: "char \<Rightarrow> string" where
  "json_escape c =
     (if c = dquote then [backslash, dquote]
      else if c = backslash then [backslash, backslash]
      else if c = CHR 0x08 then [backslash, CHR ''b'']
      else if c = CHR 0x09 then [backslash, CHR ''t'']
      else if c = CHR 0x0A then [backslash, CHR ''n'']
      else if c = CHR 0x0C then [backslash, CHR ''f'']
      else if c = CHR 0x0D then [backslash, CHR ''r'']
      else if (of_char c :: nat) < 32 then
        [backslash, CHR ''u'', CHR ''0'', CHR ''0'',
         hex_char (of_char c div 16), hex_char (of_char c)]
      else [c])"

definition json_quote :: "string \<Rightarrow> string" where
  "json_quote s = dquote # concat (map json_escape s) @ [dquote]"

text \<open>
  The serialisation at the current indentation \<open>ind\<close>; \<open>None\<close> is the result
  \<open>undefined\<close> (a property with such a value is left out, an array element
  becomes \<open>null\<close>).
\<close>

fun stringify :: "(real \<Rightarrow> string) \<Rightarrow> string \<Rightarrow> jv \<Rightarrow> string option"
  and stringify_items :: "(real \<Rightarrow> string) \<Rightarrow> string \<Rightarrow> jv list \<Rightarrow> string list"
  and stringify_members :: "(real \<Rightarrow> string) \<Rightarrow> string \<Rightarrow> (string \<times> jv) list \<Rightarrow> string list"
where
  "stringify num ind VUndefined = None"
| "stringify num ind VNull = Some ''null''"
| "stringify num ind (VBool b) = Some (if b then ''true'' else ''false'')"
| "stringify num ind (VNum n) = Some (num n)"
| "stringify num ind (VStr s) = Some (json_quote s)"
| "stringify num ind (VArr xs) =
     (if xs = [] then Some ''[]''
      else Some (''['' @ newline @ ind @ ''  '' @
                 join ('','' @ newline @ ind @ ''  '') (stringify_items num (ind @ ''  '') xs) @
                 newline @ ind @ '']''))"
| "stringify num ind (VObj kvs) =
     (case stringify_members num (ind @ ''  '') kvs of
        [] \<Rightarrow> Some ''{}''
      | m # ms \<Rightarrow>
          Some (''{'' @ newline @ ind @ ''  '' @
                join ('','' @ newline @ ind @ ''  '') (m # ms) @
                newline @ ind @ ''}''))"
| "stringify_items num ind [] = []"
| "stringify_items num ind (x # xs) =
     (case stringify num ind x of None \<Rightarrow> ''null'' | Some s \<Rightarrow> s) # stringify_items num ind xs"
| "stringify_members num ind [] = []"
| "stringify_members num ind ((k, v) # kvs) =
     (case stringify num ind v of
        None \<Rightarrow> stringify_members num ind kvs
      | Some s \<Rightarrow> (json_quote k @ '': '' @ s) # stringify_members num ind kvs)"

text \<open>\<open>`${JSON.stringify(v, null, 2)}`\<close>.\<close>

definition json_text :: "(real \<Rightarrow> string) \<Rightarrow> jv \<Rightarrow> string" where
  "json_text num v = (case stringify num [] v of None \<Rightarrow> ''undefined'' | Some s \<Rightarrow> s)"

section \<open>Input validation: the schema definitions\<close>























section \<open>Errors of the provider\<close>

text \<open>
  What a \<open>catch\<close> clause of the provider can receive: an instance of
  \<open>NillionSecretVaultError\<close> or of one of its subclasses (with the name of the
  class and the message), or any other error object (with its message). The
  handlers read \<open>(error as Error).message\<close>, so a thrown value is an error object.
\<close>

datatype thrown =
    NillionSecretVaultError string string
  | OtherError string

fun message :: "thrown \<Rightarrow> string" where
  "message (NillionSecretVaultError name m) = m"
| "message (OtherError m) = m"

text \<open>\<open>error instanceof NillionSecretVaultError\<close>\<close>

fun is_NillionSecretVaultError :: "thrown \<Rightarrow> bool" where
  "is_NillionSecretVaultError (NillionSecretVaultError name m) = True"
| "is_NillionSecretVaultError (OtherError m) = False"

definition InitializationError :: "string \<Rightarrow> thrown" where
  "InitializationError m =
     NillionSecretVaultError ''InitializationError'' (''Failed to initialize SecretVault: '' @ m)"

definition SchemaCreationError :: "string \<Rightarrow> thrown" where
  "SchemaCreationError m =
     NillionSecretVaultError ''SchemaCreationError'' (''Failed to create schema: '' @ m)"

definition DataWriteError :: "string \<Rightarrow> thrown" where
  "DataWriteError m =
     NillionSecretVaultError ''DataWriteError'' (''Failed to write data to SecretVault: '' @ m)"

definition DataReadError :: "string \<Rightarrow> thrown" where
  "DataReadError m =
     NillionSecretVaultError ''DataReadError'' (''Failed to read data from SecretVault: '' @ m)"

definition InvalidDataError :: "string \<Rightarrow> thrown" where
  "InvalidDataError m =
     NillionSecretVaultError ''InvalidDataError'' (''Invalid data provided: '' @ m)"

definition MissingSchemaError :: "string \<Rightarrow> thrown" where
  "MissingSchemaError schemaType =
     NillionSecretVaultError ''MissingSchemaError''
       (''Schema ID for '' @ schemaType @ '' is missing. Please create the schema first.'')"

definition ConfigurationError :: "string \<Rightarrow> thrown" where
  "ConfigurationError m =
     NillionSecretVaultError ''ConfigurationError'' (''Configuration error: '' @ m)"

definition BookingError :: "string \<Rightarrow> thrown" where
  "BookingError m = NillionSecretVaultError ''BookingError'' (''Booking error: '' @ m)"

definition FeedbackError :: "string \<Rightarrow> thrown" where
  "FeedbackError m = NillionSecretVaultError ''FeedbackError'' (''Feedback error: '' @ m)"

section \<open>The provider and its collaborators\<close>

text \<open>The three schema templates of \<open>constants.ts\<close>, handed to the storage service as they are.\<close>

datatype schema_template = SERVICE_LISTING_SCHEMA | BOOKING_SCHEMA | FEEDBACK_SCHEMA

text \<open>A \<open>SecretVaultWrapper\<close> instance: the node list and credentials it was constructed with.\<close>

record wrapper =
  w_nodes :: "jv list"
  w_credentials :: jv

text \<open>
  Establishing the connection has three steps, each of which may fail: the
  dynamic import of the client library, the constructor, and \<open>init()\<close>.
\<close>

datatype connect_outcome =
    ImportFails thrown
  | ConstructorFails thrown
  | InitFails thrown
  | Connected

text \<open>
  Everything outside the repository, as parameters: the storage client, the
  identifier generator, the clock, and the texts the runtime produces for a
  number and for one of its own errors. A call of a collaborator returns or
  throws. The results of the storage client have the types of the declaration
  file \<open>secretvaults.d.ts\<close>, except that of \<open>createSchema\<close>, of which the
  provider reads the property \<open>schemaId\<close> (a string, or \<open>undefined\<close> when the
  result has no such property).
\<close>

record world =
  sv_connect :: "jv list \<Rightarrow> jv \<Rightarrow> connect_outcome"
  sv_createSchema :: "wrapper \<Rightarrow> schema_template \<Rightarrow> string \<Rightarrow> thrown + string option"
  sv_writeToNodes :: "wrapper \<Rightarrow> heap \<Rightarrow> addr \<Rightarrow> thrown + string list"
  sv_readFromNodes :: "wrapper \<Rightarrow> jv \<Rightarrow> thrown + jv list"
  uuidv4 :: "thrown + string"
  now_iso :: string
  number_text :: "real \<Rightarrow> string"
  engine_message :: "js_error \<Rightarrow> string"

text \<open>
  The private fields of \<open>NillionSecretVaultActionProvider\<close>, together with the
  module-level table \<open>SCHEMA_IDS\<close>, which the actions read and \<open>create-schema\<close>
  writes. An entry of the table is a string or \<open>undefined\<close> (\<open>None\<close>).
\<close>

record provider =
  initialized :: bool
  secretVaultWrapper :: "wrapper option"
  nodes :: "jv list"
  credentials :: jv
  SCHEMA_IDS :: "string \<rightharpoonup> string"

text \<open>The result of a \<open>try\<close> block: the string returned or the value thrown, and the state.\<close>

type_synonym attempt = "(thrown + string) \<times> provider"

definition initSecretVault :: "world \<Rightarrow> provider \<Rightarrow> (thrown + unit) \<times> provider" where
  "initSecretVault w st =
     (if initialized st \<and> secretVaultWrapper st \<noteq> None then (Inr (), st)
      else
        (case sv_connect w (nodes st) (credentials st) of
           ImportFails e \<Rightarrow> (Inl (InitializationError (message e)), st)
         | ConstructorFails e \<Rightarrow> (Inl (InitializationError (message e)), st)
         | InitFails e \<Rightarrow>
             (Inl (InitializationError (message e)),
              st\<lparr>secretVaultWrapper :=
                   Some \<lparr>w_nodes = nodes st, w_credentials = credentials st\<rparr>\<rparr>)
         | Connected \<Rightarrow>
             (Inr (),
              st\<lparr>secretVaultWrapper :=
                   Some \<lparr>w_nodes = nodes st, w_credentials = credentials st\<rparr>,
                 initialized := True\<rparr>)))"

definition getSchemaByType :: "string \<Rightarrow> thrown + schema_template" where
  "getSchemaByType schemaType =
     (if schemaType = ''SERVICE_LISTING'' then Inr SERVICE_LISTING_SCHEMA
      else if schemaType = ''BOOKING'' then Inr BOOKING_SCHEMA
      else if schemaType = ''FEEDBACK'' then Inr FEEDBACK_SCHEMA
      else Inl (InvalidDataError (''Invalid schema type: '' @ schemaType)))"

text \<open>\<open>!schemaId\<close> holds for \<open>undefined\<close> and for the empty string.\<close>

definition checkSchemaId :: "provider \<Rightarrow> string \<Rightarrow> thrown + string" where
  "checkSchemaId st schemaType =
     (case SCHEMA_IDS st schemaType of
        None \<Rightarrow> Inl (MissingSchemaError schemaType)
      | Some schemaId \<Rightarrow>
          if schemaId = [] then Inl (MissingSchemaError schemaType) else Inr schemaId)"

text \<open>A method call on the wrapper field; on \<open>null\<close> the runtime raises.\<close>

definition the_wrapper :: "world \<Rightarrow> provider \<Rightarrow> string \<Rightarrow> thrown + wrapper" where
  "the_wrapper w st method =
     (case secretVaultWrapper st of
        None \<Rightarrow> Inl (OtherError (engine_message w (TypeError ''null'' method)))
      | Some sv \<Rightarrow> Inr sv)"

text \<open>\<open>`${createdIds[0]}`\<close>\<close>

fun first_id :: "string list \<Rightarrow> string" where
  "first_id [] = ''undefined''"
| "first_id (x # xs) = x"

subsection \<open>configure-secretvault\<close>

record configure_args =
  nodes :: "jv list"
  credentials :: jv

definition configureSecretVault_try :: "world \<Rightarrow> provider \<Rightarrow> configure_args \<Rightarrow> attempt" where
  "configureSecretVault_try w st args =
     (case initSecretVault w
             (st\<lparr>provider.nodes := configure_args.nodes args,
                 provider.credentials := configure_args.credentials args,
                 initialized := False\<rparr>) of
        (Inl e, st') \<Rightarrow> (Inl e, st')
      | (Inr u, st') \<Rightarrow> (Inr ''SecretVault configuration updated successfully'', st'))"

definition configureSecretVault :: "world \<Rightarrow> provider \<Rightarrow> configure_args \<Rightarrow> string \<times> provider" where
  "configureSecretVault w st args =
     (case configureSecretVault_try w st args of
        (Inr s, st') \<Rightarrow> (s, st')
      | (Inl error, st') \<Rightarrow>
          (if is_NillionSecretVaultError error then ''Error: '' @ message error
           else ''Configuration error: '' @ message error, st'))"

subsection \<open>create-schema\<close>

record create_schema_args =
  schemaType :: string
  title :: "string option"

definition createSchema_try :: "world \<Rightarrow> provider \<Rightarrow> create_schema_args \<Rightarrow> attempt" where
  "createSchema_try w st args =
     (case initSecretVault w st of
        (Inl e, st1) \<Rightarrow> (Inl e, st1)
      | (Inr u, st1) \<Rightarrow>
          (case getSchemaByType (schemaType args) of
             Inl e \<Rightarrow> (Inl e, st1)
           | Inr schemaData \<Rightarrow>
               (let the_title =
                      (case title args of
                         None \<Rightarrow> schemaType args @ '' Schema''
                       | Some t \<Rightarrow> if t \<noteq> [] then t else schemaType args @ '' Schema'')
                in case the_wrapper w st1 ''createSchema'' of
                     Inl e \<Rightarrow> (Inl e, st1)
                   | Inr sv \<Rightarrow>
                       (case sv_createSchema w sv schemaData the_title of
                          Inl e \<Rightarrow> (Inl e, st1)
                        | Inr schemaId \<Rightarrow>
                            (Inr (''Schema created successfully'' @ newline @
                                  ''Schema ID: '' @
                                  (case schemaId of None \<Rightarrow> ''undefined'' | Some i \<Rightarrow> i) @
                                  newline @ ''Title: '' @ the_title),
                             st1\<lparr>SCHEMA_IDS := (SCHEMA_IDS st1)(schemaType args := schemaId)\<rparr>)))))"

definition createSchema :: "world \<Rightarrow> provider \<Rightarrow> create_schema_args \<Rightarrow> string \<times> provider" where
  "createSchema w st args =
     (case createSchema_try w st args of
        (Inr s, st') \<Rightarrow> (s, st')
      | (Inl error, st') \<Rightarrow>
          (if is_NillionSecretVaultError error then ''Error: '' @ message error
           else ''Schema creation error: '' @ message error, st'))"

subsection \<open>create-service-listing\<close>

text \<open>
  The record builder of the action. \<open>args\<close> is the address of the validated
  input object and \<open>uuid\<close> the identifier that the call \<open>uuidv4()\<close> in the
  object literal returned. The literal \<open>{ ...args, status: "available", _id: uuid }\<close>
  is a new object; the marker then copies it once more.
\<close>

definition serviceData :: "heap \<Rightarrow> addr \<Rightarrow> string \<Rightarrow> (js_error + addr) \<times> heap" where
  "serviceData h args uuid =
     (case alloc h ((cells h args)
                      (''status'' \<mapsto> JStr ''available'', ''_id'' \<mapsto> JStr uuid)) of
        (h1, literal) \<Rightarrow>
          prepareDataForEncryption h1 literal [''provider_name'', ''provider_id'', ''contact_info''])"

definition createServiceListing_try :: "world \<Rightarrow> provider \<Rightarrow> heap \<Rightarrow> addr \<Rightarrow> attempt" where
  "createServiceListing_try w st h args =
     (case initSecretVault w st of
        (Inl e, st1) \<Rightarrow> (Inl e, st1)
      | (Inr u, st1) \<Rightarrow>
          (case checkSchemaId st1 ''SERVICE_LISTING'' of
             Inl e \<Rightarrow> (Inl e, st1)
           | Inr schemaId \<Rightarrow>
               (case uuidv4 w of
                  Inl e \<Rightarrow> (Inl e, st1)
                | Inr uuid \<Rightarrow>
                    (case serviceData h args uuid of
                       (Inl e, h') \<Rightarrow> (Inl (OtherError (engine_message w e)), st1)
                     | (Inr record_addr, h') \<Rightarrow>
                         (case the_wrapper w st1 ''writeToNodes'' of
                            Inl e \<Rightarrow> (Inl e, st1)
                          | Inr collection \<Rightarrow>
                              (case sv_writeToNodes w collection h' record_addr of
                                 Inl e \<Rightarrow> (Inl e, st1)
                               | Inr createdIds \<Rightarrow>
                                   (Inr (''Service listing created successfully'' @ newline @
                                         ''Listing ID: '' @ first_id createdIds), st1)))))))"

definition createServiceListing :: "world \<Rightarrow> provider \<Rightarrow> heap \<Rightarrow> addr \<Rightarrow> string \<times> provider" where
  "createServiceListing w st h args =
     (case createServiceListing_try w st h args of
        (Inr s, st') \<Rightarrow> (s, st')
      | (Inl error, st') \<Rightarrow>
          (if is_NillionSecretVaultError error then ''Error: '' @ message error
           else ''Error creating service listing: '' @ message error, st'))"

subsection \<open>query-service-listings\<close>

record query_service_listings_args =
  service_type :: "string option"
  date :: "string option"
  price_max :: "real option"

definition query_filters :: "query_service_listings_args \<Rightarrow> jv" where
  "query_filters args =
     VObj ([(''status'', VStr ''available'')] @
           (case service_type args of
              None \<Rightarrow> []
            | Some s \<Rightarrow> if s \<noteq> [] then [(''service_type'', VStr s)] else []) @
           (case date args of
              None \<Rightarrow> []
            | Some d \<Rightarrow> if d \<noteq> [] then [(''availability.date'', VStr d)] else []) @
           (case price_max args of
              None \<Rightarrow> []
            | Some p \<Rightarrow> if p \<noteq> 0 then [(''price.amount'', VObj [(''$lte'', VNum p)])] else []))"

definition bind_result :: "'e + 'a \<Rightarrow> ('a \<Rightarrow> 'e + 'b) \<Rightarrow> 'e + 'b" where
  "bind_result r f = (case r of Inl e \<Rightarrow> Inl e | Inr x \<Rightarrow> f x)"

text \<open>The callback of \<open>results.map\<close>; the properties are read in the order of the literal.\<close>

definition format_listing :: "(real \<Rightarrow> string) \<Rightarrow> jv \<Rightarrow> js_error + jv" where
  "format_listing num listing =
     bind_result (jv_get listing ''_id'') (\<lambda>listing_id.
     bind_result (jv_get2 listing ''service_details'' ''title'') (\<lambda>listing_title.
     bind_result (jv_get2 listing ''service_details'' ''description'') (\<lambda>description.
     bind_result (jv_get listing ''service_type'') (\<lambda>kind.
     bind_result (jv_get2 listing ''service_details'' ''duration_minutes'') (\<lambda>duration_minutes.
     bind_result (jv_get2 listing ''availability'' ''date'') (\<lambda>listing_date.
     bind_result (jv_get2 listing ''availability'' ''start_time'') (\<lambda>start_time.
     bind_result (jv_get2 listing ''availability'' ''end_time'') (\<lambda>end_time.
     bind_result (jv_get2 listing ''availability'' ''timezone'') (\<lambda>timezone.
     bind_result (jv_get2 listing ''price'' ''amount'') (\<lambda>amount.
     bind_result (jv_get2 listing ''price'' ''currency'') (\<lambda>currency.
       Inr (VObj
         [(''id'', listing_id),
          (''title'', listing_title),
          (''description'', description),
          (''service_type'', kind),
          (''duration_minutes'', duration_minutes),
          (''date'', listing_date),
          (''time'', VStr (to_text num start_time @ '' - '' @ to_text num end_time)),
          (''timezone'', timezone),
          (''price'', VStr (to_text num amount @ '' '' @ to_text num currency))]))))))))))))"

fun format_listings :: "(real \<Rightarrow> string) \<Rightarrow> jv list \<Rightarrow> js_error + jv list" where
  "format_listings num [] = Inr []"
| "format_listings num (x # xs) =
     bind_result (format_listing num x) (\<lambda>y.
     bind_result (format_listings num xs) (\<lambda>ys. Inr (y # ys)))"

definition queryServiceListings_try ::
  "world \<Rightarrow> provider \<Rightarrow> query_service_listings_args \<Rightarrow> attempt" where
  "queryServiceListings_try w st args =
     (case initSecretVault w st of
        (Inl e, st1) \<Rightarrow> (Inl e, st1)
      | (Inr u, st1) \<Rightarrow>
          (case checkSchemaId st1 ''SERVICE_LISTING'' of
             Inl e \<Rightarrow> (Inl e, st1)
           | Inr schemaId \<Rightarrow>
               (case the_wrapper w st1 ''readFromNodes'' of
                  Inl e \<Rightarrow> (Inl e, st1)
                | Inr collection \<Rightarrow>
                    (case sv_readFromNodes w collection (query_filters args) of
                       Inl e \<Rightarrow> (Inl e, st1)
                     | Inr results \<Rightarrow>
                         if length results = 0
                         then (Inr ''No service listings found matching your criteria'', st1)
                         else
                           (case format_listings (number_text w) results of
                              Inl e \<Rightarrow> (Inl (OtherError (engine_message w e)), st1)
                            | Inr formattedResults \<Rightarrow>
                                (Inr (''Found '' @ nat_text (length results) @
                                      '' service listings:'' @ newline @
                                      json_text (number_text w) (VArr formattedResults)),
                                 st1))))))"

definition queryServiceListings ::
  "world \<Rightarrow> provider \<Rightarrow> query_service_listings_args \<Rightarrow> string \<times> provider" where
  "queryServiceListings w st args =
     (case queryServiceListings_try w st args of
        (Inr s, st') \<Rightarrow> (s, st')
      | (Inl error, st') \<Rightarrow>
          (if is_NillionSecretVaultError error then ''Error: '' @ message error
           else ''Error querying service listings: '' @ message error, st'))"

subsection \<open>create-booking\<close>

text \<open>The field list, with \<open>meeting_link\<close> pushed when \<open>args.meeting_link\<close> is truthy.\<close>

definition booking_encryptedFields :: "heap \<Rightarrow> addr \<Rightarrow> string list" where
  "booking_encryptedFields h args =
     [''customer_id'', ''customer_name''] @
     (if truthy (get_prop h (JRef args) ''meeting_link'') then [''meeting_link''] else [])"

text \<open>
  The record builder: \<open>uuid\<close> is what \<open>uuidv4()\<close> returned and \<open>now\<close> what
  \<open>new Date().toISOString()\<close> returned.
\<close>

definition bookingData ::
  "heap \<Rightarrow> addr \<Rightarrow> string \<Rightarrow> string \<Rightarrow> (js_error + addr) \<times> heap" where
  "bookingData h args uuid now =
     (case alloc h ((cells h args)
                      (''_id'' \<mapsto> JStr uuid,
                       ''booking_time'' \<mapsto> JStr now,
                       ''payment_status'' \<mapsto> JStr ''pending'',
                       ''service_status'' \<mapsto> JStr ''scheduled'',
                       ''notes'' \<mapsto> JStr '''')) of
        (h1, literal) \<Rightarrow>
          prepareDataForEncryption h1 literal (booking_encryptedFields h args))"

definition createBooking_try :: "world \<Rightarrow> provider \<Rightarrow> heap \<Rightarrow> addr \<Rightarrow> attempt" where
  "createBooking_try w st h args =
     (case initSecretVault w st of
        (Inl e, st1) \<Rightarrow> (Inl e, st1)
      | (Inr u, st1) \<Rightarrow>
          (case checkSchemaId st1 ''BOOKING'' of
             Inl e \<Rightarrow> (Inl e, st1)
           | Inr bookingSchemaId \<Rightarrow>
               (case checkSchemaId st1 ''SERVICE_LISTING'' of
                  Inl e \<Rightarrow> (Inl e, st1)
                | Inr serviceSchemaId \<Rightarrow>
                    (case uuidv4 w of
                       Inl e \<Rightarrow> (Inl e, st1)
                     | Inr uuid \<Rightarrow>
                         (case bookingData h args uuid (now_iso w) of
                            (Inl e, h') \<Rightarrow> (Inl (OtherError (engine_message w e)), st1)
                          | (Inr record_addr, h') \<Rightarrow>
                              (case the_wrapper w st1 ''writeToNodes'' of
                                 Inl e \<Rightarrow> (Inl e, st1)
                               | Inr bookingCollection \<Rightarrow>
                                   (case sv_writeToNodes w bookingCollection h' record_addr of
                                      Inl e \<Rightarrow> (Inl e, st1)
                                    | Inr created \<Rightarrow>
                                        (Inr (''Service booked successfully'' @ newline @
                                              ''Booking ID: '' @ first_id created),
                                         st1))))))))"

definition createBooking :: "world \<Rightarrow> provider \<Rightarrow> heap \<Rightarrow> addr \<Rightarrow> string \<times> provider" where
  "createBooking w st h args =
     (case createBooking_try w st h args of
        (Inr s, st') \<Rightarrow> (s, st')
      | (Inl error, st') \<Rightarrow>
          (if is_NillionSecretVaultError error then ''Error: '' @ message error
           else ''Error creating booking: '' @ message error, st'))"

subsection \<open>update-booking-status\<close>

record update_booking_status_args =
  booking_id :: string
  service_status :: string
  payment_status :: "string option"
  "notes" :: "string option"
  meeting_link :: "string option"

definition updateBookingStatus_try ::
  "world \<Rightarrow> provider \<Rightarrow> update_booking_status_args \<Rightarrow> attempt" where
  "updateBookingStatus_try w st args =
     (case initSecretVault w st of
        (Inl e, st1) \<Rightarrow> (Inl e, st1)
      | (Inr u, st1) \<Rightarrow>
          (case checkSchemaId st1 ''BOOKING'' of
             Inl e \<Rightarrow> (Inl e, st1)
           | Inr schemaId \<Rightarrow>
               (Inr (''Booking status updated to: '' @ service_status args), st1)))"

definition updateBookingStatus ::
  "world \<Rightarrow> provider \<Rightarrow> update_booking_status_args \<Rightarrow> string \<times> provider" where
  "updateBookingStatus w st args =
     (case updateBookingStatus_try w st args of
        (Inr s, st') \<Rightarrow> (s, st')
      | (Inl error, st') \<Rightarrow>
          (if is_NillionSecretVaultError error then ''Error: '' @ message error
           else ''Error updating booking status: '' @ message error, st'))"

subsection \<open>get-booking-details\<close>

record get_booking_details_args =
  booking_id :: string

definition mockBooking :: "get_booking_details_args \<Rightarrow> jv" where
  "mockBooking args =
     VObj [(''_id'', VStr (get_booking_details_args.booking_id args)),
           (''service_id'', VStr ''service-123''),
           (''customer_name'', VStr ''John Doe''),
           (''booking_time'', VStr ''2023-05-15T18:00:00Z''),
           (''service_status'', VStr ''scheduled''),
           (''payment_status'', VStr ''pending''),
           (''meeting_link'', VStr ''https://meet.jitsi.si/secure-meeting-123'')]"

definition getBookingDetails_try ::
  "world \<Rightarrow> provider \<Rightarrow> get_booking_details_args \<Rightarrow> attempt" where
  "getBookingDetails_try w st args =
     (case initSecretVault w st of
        (Inl e, st1) \<Rightarrow> (Inl e, st1)
      | (Inr u, st1) \<Rightarrow>
          (case checkSchemaId st1 ''BOOKING'' of
             Inl e \<Rightarrow> (Inl e, st1)
           | Inr schemaId \<Rightarrow>
               (Inr (''Booking details:'' @ newline @
                     json_text (number_text w) (mockBooking args)), st1)))"

definition getBookingDetails ::
  "world \<Rightarrow> provider \<Rightarrow> get_booking_details_args \<Rightarrow> string \<times> provider" where
  "getBookingDetails w st args =
     (case getBookingDetails_try w st args of
        (Inr s, st') \<Rightarrow> (s, st')
      | (Inl error, st') \<Rightarrow>
          (if is_NillionSecretVaultError error then ''Error: '' @ message error
           else ''Error getting booking details: '' @ message error, st'))"

subsection \<open>create-feedback\<close>

definition feedback_encryptedFields :: "heap \<Rightarrow> addr \<Rightarrow> string list" where
  "feedback_encryptedFields h args =
     (if truthy (get_prop h (JRef args) ''agent_notes'') then [''agent_notes''] else [])"

definition feedbackData :: "heap \<Rightarrow> addr \<Rightarrow> string \<Rightarrow> (js_error + addr) \<times> heap" where
  "feedbackData h args uuid =
     (case alloc h ((cells h args)
                      (''_id'' \<mapsto> JStr uuid,
                       ''resolution_status'' \<mapsto> JStr ''pending'')) of
        (h1, literal) \<Rightarrow>
          prepareDataForEncryption h1 literal (feedback_encryptedFields h args))"

definition createFeedback_try :: "world \<Rightarrow> provider \<Rightarrow> heap \<Rightarrow> addr \<Rightarrow> attempt" where
  "createFeedback_try w st h args =
     (case initSecretVault w st of
        (Inl e, st1) \<Rightarrow> (Inl e, st1)
      | (Inr u, st1) \<Rightarrow>
          (case checkSchemaId st1 ''FEEDBACK'' of
             Inl e \<Rightarrow> (Inl e, st1)
           | Inr schemaId \<Rightarrow>
               (case uuidv4 w of
                  Inl e \<Rightarrow> (Inl e, st1)
                | Inr uuid \<Rightarrow>
                    (case feedbackData h args uuid of
                       (Inl e, h') \<Rightarrow> (Inl (OtherError (engine_message w e)), st1)
                     | (Inr record_addr, h') \<Rightarrow>
                         (case the_wrapper w st1 ''writeToNodes'' of
                            Inl e \<Rightarrow> (Inl e, st1)
                          | Inr collection \<Rightarrow>
                              (case sv_writeToNodes w collection h' record_addr of
                                 Inl e \<Rightarrow> (Inl e, st1)
                               | Inr created \<Rightarrow>
                                   (Inr (''Feedback created successfully'' @ newline @
                                         ''Feedback ID: '' @ first_id created), st1)))))))"

definition createFeedback :: "world \<Rightarrow> provider \<Rightarrow> heap \<Rightarrow> addr \<Rightarrow> string \<times> provider" where
  "createFeedback w st h args =
     (case createFeedback_try w st h args of
        (Inr s, st') \<Rightarrow> (s, st')
      | (Inl error, st') \<Rightarrow>
          (if is_NillionSecretVaultError error then ''Error: '' @ message error
           else ''Error creating feedback: '' @ message error, st'))"

subsection \<open>resolve-feedback\<close>

record resolve_feedback_args =
  feedback_id :: string
  resolution_status :: string
  resolution_notes :: "string option"

definition resolveFeedback_try ::
  "world \<Rightarrow> provider \<Rightarrow> resolve_feedback_args \<Rightarrow> attempt" where
  "resolveFeedback_try w st args =
     (case initSecretVault w st of
        (Inl e, st1) \<Rightarrow> (Inl e, st1)
      | (Inr u, st1) \<Rightarrow>
          (case checkSchemaId st1 ''FEEDBACK'' of
             Inl e \<Rightarrow> (Inl e, st1)
           | Inr schemaId \<Rightarrow>
               (Inr (''Feedback resolved with status: '' @ resolution_status args), st1)))"

definition resolveFeedback ::
  "world \<Rightarrow> provider \<Rightarrow> resolve_feedback_args \<Rightarrow> string \<times> provider" where
  "resolveFeedback w st args =
     (case resolveFeedback_try w st args of
        (Inr s, st') \<Rightarrow> (s, st')
      | (Inl error, st') \<Rightarrow>
          (if is_NillionSecretVaultError error then ''Error: '' @ message error
           else ''Error resolving feedback: '' @ message error, st'))"

subsection \<open>get-feedback\<close>

record get_feedback_args =
  feedback_id :: string

definition mockFeedback :: "get_feedback_args \<Rightarrow> jv" where
  "mockFeedback args =
     VObj [(''_id'', VStr (get_feedback_args.feedback_id args)),
           (''booking_id'', VStr ''booking-123''),
           (''provider_rating'', VNum 4),
           (''customer_rating'', VNum 5),
           (''provider_feedback'', VStr ''Great student, was on time and prepared!''),
           (''customer_feedback'', VStr ''Excellent teacher, very clear explanations''),
           (''resolution_status'', VStr ''resolved''),
           (''agent_notes'', VStr ''Both parties were satisfied with the service'')]"

definition getFeedback_try :: "world \<Rightarrow> provider \<Rightarrow> get_feedback_args \<Rightarrow> attempt" where
  "getFeedback_try w st args =
     (case initSecretVault w st of
        (Inl e, st1) \<Rightarrow> (Inl e, st1)
      | (Inr u, st1) \<Rightarrow>
          (case checkSchemaId st1 ''FEEDBACK'' of
             Inl e \<Rightarrow> (Inl e, st1)
           | Inr schemaId \<Rightarrow>
               (Inr (''Feedback details:'' @ newline @
                     json_text (number_text w) (mockFeedback args)), st1)))"

definition getFeedback :: "world \<Rightarrow> provider \<Rightarrow> get_feedback_args \<Rightarrow> string \<times> provider" where
  "getFeedback w st args =
     (case getFeedback_try w st args of
        (Inr s, st') \<Rightarrow> (s, st')
      | (Inl error, st') \<Rightarrow>
          (if is_NillionSecretVaultError error then ''Error: '' @ message error
           else ''Error getting feedback: '' @ message error, st'))"

subsection \<open>generate-uuid\<close>

text \<open>
  This action has no \<open>try\<close> block: it returns what the generator returns, and
  what the generator throws reaches the caller.
\<close>

definition generateUuid :: "world \<Rightarrow> provider \<Rightarrow> attempt" where
  "generateUuid w st = (uuidv4 w, st)"

section \<open>The action surface\<close>

text \<open>
  One invocation of an action by the agent framework: the action and its
  validated arguments. For the three create actions the argument is the address
  of the input object in the heap \<open>h\<close> of the call.
\<close>

datatype invocation =
    ConfigureSecretVault configure_args
  | CreateSchema create_schema_args
  | CreateServiceListing addr
  | QueryServiceListings query_service_listings_args
  | CreateBooking addr
  | UpdateBookingStatus update_booking_status_args
  | GetBookingDetails get_booking_details_args
  | CreateFeedback addr
  | ResolveFeedback resolve_feedback_args
  | GetFeedback get_feedback_args
  | GenerateUuid

text \<open>An action that returned: nothing was thrown to the caller.\<close>

definition returned :: "string \<times> provider \<Rightarrow> attempt" where
  "returned r = (Inr (fst r), snd r)"

text \<open>What the caller of an action gets: the string returned, or the value thrown.\<close>

fun invoke :: "world \<Rightarrow> provider \<Rightarrow> heap \<Rightarrow> invocation \<Rightarrow> attempt" where
  "invoke w st h (ConfigureSecretVault args) = returned (configureSecretVault w st args)"
| "invoke w st h (CreateSchema args) = returned (createSchema w st args)"
| "invoke w st h (CreateServiceListing args) = returned (createServiceListing w st h args)"
| "invoke w st h (QueryServiceListings args) = returned (queryServiceListings w st args)"
| "invoke w st h (CreateBooking args) = returned (createBooking w st h args)"
| "invoke w st h (UpdateBookingStatus args) = returned (updateBookingStatus w st args)"
| "invoke w st h (GetBookingDetails args) = returned (getBookingDetails w st args)"
| "invoke w st h (CreateFeedback args) = returned (createFeedback w st h args)"
| "invoke w st h (ResolveFeedback args) = returned (resolveFeedback w st args)"
| "invoke w st h (GetFeedback args) = returned (getFeedback w st args)"
| "invoke w st h GenerateUuid = generateUuid w st"

text \<open>
  The \<open>try\<close> block of an invocation; \<open>generate-uuid\<close> has none, and no
  \<open>catch\<close> clause.
\<close>

datatype guarded = Guarded attempt | Unguarded

fun try_block :: "world \<Rightarrow> provider \<Rightarrow> heap \<Rightarrow> invocation \<Rightarrow> guarded" where
  "try_block w st h (ConfigureSecretVault args) = Guarded (configureSecretVault_try w st args)"
| "try_block w st h (CreateSchema args) = Guarded (createSchema_try w st args)"
| "try_block w st h (CreateServiceListing args) = Guarded (createServiceListing_try w st h args)"
| "try_block w st h (QueryServiceListings args) = Guarded (queryServiceListings_try w st args)"
| "try_block w st h (CreateBooking args) = Guarded (createBooking_try w st h args)"
| "try_block w st h (UpdateBookingStatus args) = Guarded (updateBookingStatus_try w st args)"
| "try_block w st h (GetBookingDetails args) = Guarded (getBookingDetails_try w st args)"
| "try_block w st h (CreateFeedback args) = Guarded (createFeedback_try w st h args)"
| "try_block w st h (ResolveFeedback args) = Guarded (resolveFeedback_try w st args)"
| "try_block w st h (GetFeedback args) = Guarded (getFeedback_try w st args)"
| "try_block w st h GenerateUuid = Unguarded"

text \<open>The text a \<open>catch\<close> clause puts before the message of an error of another class.\<close>

fun catch_prefix :: "invocation \<Rightarrow> string" where
  "catch_prefix (ConfigureSecretVault args) = ''Configuration error: ''"
| "catch_prefix (CreateSchema args) = ''Schema creation error: ''"
| "catch_prefix (CreateServiceListing args) = ''Error creating service listing: ''"
| "catch_prefix (QueryServiceListings args) = ''Error querying service listings: ''"
| "catch_prefix (CreateBooking args) = ''Error creating booking: ''"
| "catch_prefix (UpdateBookingStatus args) = ''Error updating booking status: ''"
| "catch_prefix (GetBookingDetails args) = ''Error getting booking details: ''"
| "catch_prefix (CreateFeedback args) = ''Error creating feedback: ''"
| "catch_prefix (ResolveFeedback args) = ''Error resolving feedback: ''"
| "catch_prefix (GetFeedback args) = ''Error getting feedback: ''"
| "catch_prefix GenerateUuid = []"

text \<open>
  The schema kinds an action passes to \<open>checkSchemaId\<close>, in the order of its
  calls; the other actions call it nowhere.
\<close>

fun required_schemas :: "invocation \<Rightarrow> string list" where
  "required_schemas (CreateServiceListing args) = [''SERVICE_LISTING'']"
| "required_schemas (QueryServiceListings args) = [''SERVICE_LISTING'']"
| "required_schemas (CreateBooking args) = [''BOOKING'', ''SERVICE_LISTING'']"
| "required_schemas (UpdateBookingStatus args) = [''BOOKING'']"
| "required_schemas (GetBookingDetails args) = [''BOOKING'']"
| "required_schemas (CreateFeedback args) = [''FEEDBACK'']"
| "required_schemas (ResolveFeedback args) = [''FEEDBACK'']"
| "required_schemas (GetFeedback args) = [''FEEDBACK'']"
| "required_schemas other = []"

text \<open>A schema kind is configured when its entry of \<open>SCHEMA_IDS\<close> is a non-empty string.\<close>

definition configured :: "provider \<Rightarrow> string \<Rightarrow> bool" where
  "configured st kind \<longleftrightarrow> (\<exists>i. SCHEMA_IDS st kind = Some i \<and> i \<noteq> [])"

section \<open>Vocabulary of the statements about built records\<close>

text \<open>The property \<open>k\<close> of the object at \<open>r\<close> is the wrapper \<open>{ '%allot': v }\<close>.\<close>

definition wrapped :: "heap \<Rightarrow> addr \<Rightarrow> string \<Rightarrow> jsval \<Rightarrow> bool" where
  "wrapped h r k v \<longleftrightarrow> (\<exists>w. cells h r k = Some (JRef w) \<and> cells h w = allot v)"

text \<open>
  How a confidential string field \<open>k\<close> with input value \<open>s\<close> appears in the built
  record at \<open>r\<close>: wrapped when \<open>s\<close> is not empty, the plain empty string otherwise.
\<close>

definition confidential :: "heap \<Rightarrow> addr \<Rightarrow> string \<Rightarrow> string \<Rightarrow> bool" where
  "confidential h r k s \<longleftrightarrow>
     (if s = [] then cells h r k = Some (JStr []) else wrapped h r k (JStr s))"

text \<open>The same for an optional field: not supplied, it is not a property of the record.\<close>

fun optional_confidential :: "heap \<Rightarrow> addr \<Rightarrow> string \<Rightarrow> string option \<Rightarrow> bool" where
  "optional_confidential h r k None = (cells h r k = None)"
| "optional_confidential h r k (Some s) = confidential h r k s"

subsection \<open>Example inputs and collaborators\<close>

text \<open>
  Validated inputs of the three create actions: a listing (address 0, with its
  three nested blocks at 1, 2 and 3) whose contact information is the empty
  string, a booking without meeting link (4) and a feedback with agent notes (5).
\<close>

definition example_inputs :: heap where
  "example_inputs =
     \<lparr>cells = (\<lambda>a. Map.empty)
        (0 := [''provider_name'' \<mapsto> JStr ''Ana'',
               ''provider_id'' \<mapsto> JStr ''p-1'',
               ''service_type'' \<mapsto> JStr ''tutoring'',
               ''service_details'' \<mapsto> JRef 1,
               ''availability'' \<mapsto> JRef 2,
               ''price'' \<mapsto> JRef 3,
               ''contact_info'' \<mapsto> JStr ''''],
         1 := [''title'' \<mapsto> JStr ''Spanish'', ''description'' \<mapsto> JStr ''Beginner'',
               ''duration_minutes'' \<mapsto> JNum 60],
         2 := [''date'' \<mapsto> JStr ''2024-05-01'', ''start_time'' \<mapsto> JStr ''10:00'',
               ''end_time'' \<mapsto> JStr ''11:00'', ''timezone'' \<mapsto> JStr ''UTC''],
         3 := [''amount'' \<mapsto> JNum 20, ''currency'' \<mapsto> JStr ''USD''],
         4 := [''service_id'' \<mapsto> JStr ''s-1'', ''customer_id'' \<mapsto> JStr ''c-1'',
               ''customer_name'' \<mapsto> JStr ''Bo''],
         5 := [''booking_id'' \<mapsto> JStr ''b-1'', ''agent_notes'' \<mapsto> JStr ''calm'']),
      used = 6\<rparr>"

text \<open>A storage service that answers every call, and one that refuses the connection.\<close>

definition example_world :: world where
  "example_world =
     \<lparr>sv_connect = (\<lambda>ns c. Connected),
      sv_createSchema = (\<lambda>sv t name. Inr (Some ''schema-1'')),
      sv_writeToNodes = (\<lambda>sv h a. Inr [''id-1'']),
      sv_readFromNodes = (\<lambda>sv q. Inr []),
      uuidv4 = Inr ''123e4567-e89b-42d3-a456-426614174000'',
      now_iso = ''2024-05-01T09:00:00.000Z'',
      number_text = (\<lambda>x. ''4''),
      engine_message = (\<lambda>e. ''TypeError'')\<rparr>"

definition offline_world :: world where
  "offline_world =
     example_world\<lparr>sv_connect := (\<lambda>ns c. InitFails (OtherError ''connect ECONNREFUSED''))\<rparr>"

text \<open>A storage service whose write fails with an error of its own.\<close>

definition failing_write_world :: world where
  "failing_write_world =
     example_world\<lparr>sv_writeToNodes := (\<lambda>sv h a. Inl (OtherError ''write failed''))\<rparr>"

text \<open>An identifier generator without a source of randomness.\<close>

definition no_entropy_world :: world where
  "no_entropy_world =
     example_world\<lparr>uuidv4 := Inl (OtherError ''crypto.getRandomValues() not supported'')\<rparr>"

text \<open>
  A provider as constructed, with no schema identifier in the environment, and
  one with the three identifiers provisioned.
\<close>

definition fresh_provider :: provider where
  "fresh_provider =
     \<lparr>initialized = False, secretVaultWrapper = None,
      nodes = [VObj [(''url'', VStr ''https://node1''), (''did'', VStr ''did:nil:1'')]],
      credentials = VObj [(''secretKey'', VStr ''k''), (''orgDid'', VStr ''did:nil:org'')],
      SCHEMA_IDS = [''SERVICE_LISTING'' \<mapsto> '''', ''BOOKING'' \<mapsto> '''', ''FEEDBACK'' \<mapsto> '''']\<rparr>"

definition provisioned_provider :: provider where
  "provisioned_provider =
     fresh_provider\<lparr>SCHEMA_IDS :=
       [''SERVICE_LISTING'' \<mapsto> ''sl-1'', ''BOOKING'' \<mapsto> ''bk-1'', ''FEEDBACK'' \<mapsto> ''fb-1'']\<rparr>"

text \<open>A storage service that rejects schema creation with an error of its own.\<close>

definition failing_schema_world :: world where
  "failing_schema_world =
     example_world\<lparr>sv_createSchema := (\<lambda>sv t name. Inl (OtherError ''quota exceeded''))\<rparr>"

text \<open>A provider with an established connection.\<close>

definition connected_provider :: provider where
  "connected_provider =
     provisioned_provider
       \<lparr>initialized := True,
        secretVaultWrapper :=
          Some \<lparr>w_nodes = provider.nodes provisioned_provider,
                w_credentials = provider.credentials provisioned_provider\<rparr>\<rparr>"

definition new_configuration :: configure_args where
  "new_configuration =
     \<lparr>configure_args.nodes = [VObj [(''url'', VStr ''https://node9''), (''did'', VStr ''did:nil:9'')]],
      configure_args.credentials = VObj [(''secretKey'', VStr ''k9''), (''orgDid'', VStr ''did:nil:org9'')]\<rparr>"

subsection \<open>The text of \<open>get-booking-details\<close> around the identifier\<close>

text \<open>
  The response of \<open>get-booking-details\<close> as two fixed texts, one before and one
  after the place of the \<open>_id\<close> value.
\<close>

definition json_member :: "string \<Rightarrow> string \<Rightarrow> string" where
  "json_member k s = ''  '' @ json_quote k @ '': '' @ json_quote s"

definition booking_details_before :: string where
  "booking_details_before =
     ''Booking details:'' @ newline @ ''{'' @ newline @ ''  '' @ json_quote ''_id'' @ '': ''"

definition booking_details_after :: string where
  "booking_details_after =
     '','' @ newline @ json_member ''service_id'' ''service-123'' @
     '','' @ newline @ json_member ''customer_name'' ''John Doe'' @
     '','' @ newline @ json_member ''booking_time'' ''2023-05-15T18:00:00Z'' @
     '','' @ newline @ json_member ''service_status'' ''scheduled'' @
     '','' @ newline @ json_member ''payment_status'' ''pending'' @
     '','' @ newline @ json_member ''meeting_link'' ''https://meet.jitsi.si/secure-meeting-123'' @
     newline @ ''}''"

section \<open>Properties of the field-encryption marker\<close>

lemma find_member_not_ref: "find_member ps k \<noteq> JRef a"
  by (induction ps k rule: find_member.induct) simp_all

lemma inherited_not_ref: "inherited kind k \<noteq> JRef a"
  by (simp add: inherited_def find_member_not_ref)

lemma get_prop_ref_own: "get_prop h (JRef b) k = JRef a \<Longrightarrow> cells h b k = Some (JRef a)"
  using inherited_not_ref [of "''object''" k a] by (auto split: option.splits)

lemma plain_parent_heap:
  "(\<forall>a. pv \<noteq> JRef a) \<Longrightarrow> plain_parent h' pv c = plain_parent h pv c"
  by (cases pv) simp_all

text \<open>The definitions to unfold for looking up a concrete name in the prototypes.\<close>

lemmas prototype_eval =
  inherited_def prototypes_def object_prototype_def string_prototype_def number_prototype_def
  boolean_prototype_def runs_accessor_def

lemma wrap_slot_used: "used h \<le> used (wrap_slot h s)"
  by (cases s) (simp add: wrap_slot_def alloc_def)

lemma wrap_slot_used_le: "used (wrap_slot h s) \<le> Suc (used h)"
  by (cases s) (simp add: wrap_slot_def alloc_def)

lemma wrap_slot_frame:
  "a' \<noteq> used h \<Longrightarrow> (a', k') \<noteq> s \<Longrightarrow> cells (wrap_slot h s) a' k' = cells h a' k'"
  by (cases s) (auto simp add: wrap_slot_def alloc_def)

lemma wrap_slot_falsy:
  "\<not> truthy (get_prop h (JRef a) k) \<Longrightarrow> wrap_slot h (a, k) = h"
  by (simp add: wrap_slot_def)

lemma wrap_slot_truthy:
  "a \<noteq> used h \<Longrightarrow> truthy (get_prop h (JRef a) k) \<Longrightarrow>
   cells (wrap_slot h (a, k)) a k = Some (JRef (used h)) \<and>
   cells (wrap_slot h (a, k)) (used h) = allot (get_prop h (JRef a) k) \<and>
   used (wrap_slot h (a, k)) = Suc (used h)"
  by (simp add: wrap_slot_def alloc_def)

lemma wrap_slots_used: "used h \<le> used (wrap_slots h ss)"
proof (induction ss arbitrary: h)
  case Nil
  show ?case by simp
next
  case (Cons s ss)
  have "used h \<le> used (wrap_slot h s)" by (rule wrap_slot_used)
  also have "\<dots> \<le> used (wrap_slots (wrap_slot h s) ss)" by (rule Cons.IH)
  finally show ?case by simp
qed

lemma wrap_slots_frame:
  "a' < used h \<Longrightarrow> (a', k') \<notin> set ss \<Longrightarrow> cells (wrap_slots h ss) a' k' = cells h a' k'"
proof (induction ss arbitrary: h)
  case Nil
  show ?case by simp
next
  case (Cons s ss)
  have lt: "a' < used (wrap_slot h s)"
    using Cons.prems(1) wrap_slot_used [of h s] by simp
  have "cells (wrap_slots (wrap_slot h s) ss) a' k' = cells (wrap_slot h s) a' k'"
    using Cons.IH [OF lt] Cons.prems(2) by simp
  also have "\<dots> = cells h a' k'"
    using Cons.prems by (intro wrap_slot_frame) auto
  finally show ?case by simp
qed

lemma wrap_slots_frame_obj:
  assumes "a' < used h" and "\<forall>s\<in>set ss. fst s \<noteq> a'"
  shows "cells (wrap_slots h ss) a' = cells h a'"
proof
  fix k'
  have "(a', k') \<notin> set ss" using assms(2) by force
  then show "cells (wrap_slots h ss) a' k' = cells h a' k'"
    using assms(1) by (rule wrap_slots_frame [rotated])
qed

lemma wrap_slots_slot:
  assumes "distinct ss" and "\<forall>s\<in>set ss. fst s < n" and "n \<le> used h" and "(a, k) \<in> set ss"
  shows "if truthy (get_prop h (JRef a) k)
         then (\<exists>w. used h \<le> w \<and> w < used (wrap_slots h ss) \<and>
                cells (wrap_slots h ss) a k = Some (JRef w) \<and>
                cells (wrap_slots h ss) w = allot (get_prop h (JRef a) k))
         else cells (wrap_slots h ss) a k = cells h a k"
  using assms
proof (induction ss arbitrary: h)
  case Nil
  then show ?case by simp
next
  case (Cons s ss)
  let ?h1 = "wrap_slot h s"
  have n1: "n \<le> used ?h1" using Cons.prems(3) wrap_slot_used [of h s] by simp
  have an: "a < n" using Cons.prems(2,4) by force
  show ?case
  proof (cases "s = (a, k)")
    case True
    have notin: "(a, k) \<notin> set ss" using Cons.prems(1) True by simp
    have a_lt: "a < used ?h1" using an n1 by simp
    have rest: "cells (wrap_slots ?h1 ss) a k = cells ?h1 a k"
      using a_lt notin by (rule wrap_slots_frame)
    show ?thesis
    proof (cases "truthy (get_prop h (JRef a) k)")
      case False
      then show ?thesis using rest True by (simp add: wrap_slot_falsy)
    next
      case tr: True
      have ne: "a \<noteq> used h" using an Cons.prems(3) by simp
      note w = wrap_slot_truthy [OF ne tr]
      have w_lt: "used h < used ?h1" using w True by simp
      have "\<forall>s'\<in>set ss. fst s' \<noteq> used h" using Cons.prems(2,3) by force
      then have wobj: "cells (wrap_slots ?h1 ss) (used h) = cells ?h1 (used h)"
        using w_lt by (intro wrap_slots_frame_obj) auto
      have "used ?h1 \<le> used (wrap_slots ?h1 ss)" by (rule wrap_slots_used)
      then have "used h < used (wrap_slots ?h1 ss)" using w_lt by simp
      then show ?thesis using tr rest wobj w True by auto
    qed
  next
    case False
    then have mem: "(a, k) \<in> set ss" using Cons.prems(4) by simp
    have same: "get_prop ?h1 (JRef a) k = get_prop h (JRef a) k"
      using wrap_slot_frame [of a h k s] False an Cons.prems(3) by simp
    have IH: "if truthy (get_prop ?h1 (JRef a) k)
         then (\<exists>w. used ?h1 \<le> w \<and> w < used (wrap_slots ?h1 ss) \<and>
                cells (wrap_slots ?h1 ss) a k = Some (JRef w) \<and>
                cells (wrap_slots ?h1 ss) w = allot (get_prop ?h1 (JRef a) k))
         else cells (wrap_slots ?h1 ss) a k = cells ?h1 a k"
      using Cons.prems(1,2) n1 mem by (intro Cons.IH) auto
    have fr: "cells ?h1 a k = cells h a k"
      using wrap_slot_frame [of a h k s] False an Cons.prems(3) by simp
    show ?thesis
    proof (cases "truthy (get_prop h (JRef a) k)")
      case True
      then obtain w where "used ?h1 \<le> w" "w < used (wrap_slots ?h1 ss)"
        "cells (wrap_slots ?h1 ss) a k = Some (JRef w)"
        "cells (wrap_slots ?h1 ss) w = allot (get_prop h (JRef a) k)"
        using IH same by auto
      moreover have "used h \<le> used ?h1" by (rule wrap_slot_used)
      ultimately show ?thesis using True by auto
    next
      case False
      then show ?thesis using IH same fr by simp
    qed
  qed
qed

lemma split_dot_not_Nil: "split_dot s \<noteq> []"
  by (induction s) (auto split: list.splits)

lemma split_dot_two:
  "includes_dot s \<Longrightarrow> \<exists>p c rest. split_dot s = p # c # rest"
proof (induction s)
  case Nil
  then show ?case by (simp add: includes_dot_def)
next
  case (Cons x xs)
  show ?case
  proof (cases "x = CHR ''.''")
    case True
    obtain w ws where "split_dot xs = w # ws"
      using split_dot_not_Nil [of xs] by (cases "split_dot xs") auto
    then show ?thesis using True by simp
  next
    case False
    then have "includes_dot xs" using Cons.prems by (simp add: includes_dot_def)
    then obtain p c rest where "split_dot xs = p # c # rest" using Cons.IH by blast
    then show ?thesis using False by simp
  qed
qed

lemma path_of_Top: "path_of field = Top f \<Longrightarrow> f = field \<and> \<not> includes_dot field"
  using split_dot_two [of field]
  by (auto simp add: path_of_def split: if_splits)

lemma path_of_Nested:
  "path_of field = Nested p c \<Longrightarrow> includes_dot field \<and> (\<exists>rest. split_dot field = p # c # rest)"
  by (auto simp add: path_of_def split: if_splits list.splits)

lemma mark_field_target:
  assumes "target r h field = Some s" and "snd s \<noteq> ''__proto__''"
    and "\<forall>p c. path_of field = Nested p c \<longrightarrow> p \<noteq> ''__proto__''"
  shows "mark_field r h field = (Inr (), wrap_slot h s)"
proof (cases "path_of field")
  case (Top f)
  then have "f = field" "\<not> includes_dot field" using path_of_Top by auto
  moreover have "s = (r, field)" using assms(1) Top \<open>f = field\<close> by (simp add: target_def)
  ultimately show ?thesis
    using assms(2) by (simp add: mark_field_def wrap_slot_def alloc_def runs_accessor_def)
next
  case (Nested p c)
  then obtain rest where sp: "includes_dot field" "split_dot field = p # c # rest"
    using path_of_Nested by blast
  obtain a where a: "get_prop h (JRef r) p = JRef a" "s = (a, c)"
    using assms(1) Nested by (auto simp add: target_def split: jsval.splits)
  have np: "p \<noteq> ''__proto__''" using assms(3) Nested by simp
  have nc: "c \<noteq> ''__proto__''" using assms(2) a(2) by simp
  show ?thesis
    using sp a np nc by (simp add: mark_field_def wrap_slot_def alloc_def runs_accessor_def)
qed

lemma mark_field_no_target:
  assumes "target r h field = None" and "path_of field = Nested p c"
    and "plain_parent h (get_prop h (JRef r) p) c"
    and "p \<noteq> ''__proto__''" and "c \<noteq> ''__proto__''"
  shows "mark_field r h field = (Inr (), h)"
proof -
  obtain rest where sp: "includes_dot field" "split_dot field = p # c # rest"
    using assms(2) path_of_Nested by blast
  define pv where "pv = get_prop h (JRef r) p"
  have nr: "\<forall>a. pv \<noteq> JRef a"
    using assms(1,2) by (auto simp add: target_def pv_def)
  have pp: "plain_parent h pv c" using assms(3) by (simp add: pv_def)
  have na: "\<not> runs_accessor h pv c" "\<not> runs_accessor h (JRef r) p"
    using assms(4,5) by (simp_all add: runs_accessor_def)
  have nb: "\<not> is_builtin pv" using pp by (cases pv) simp_all
  have nt: "truthy pv \<Longrightarrow> \<not> truthy (get_prop h pv c)"
    using pp nr by (cases pv) (simp_all del: get_prop.simps)
  have "mark_field r h field =
          (if truthy pv then
             (if is_builtin pv \<or> runs_accessor h pv c then (Inl (Intrinsic c), h)
              else if truthy (get_prop h pv c) then
                (case alloc h (allot (get_prop h pv c)) of
                   (h', w) \<Rightarrow> put_prop h' pv c (JRef w))
              else (Inr (), h))
           else (Inr (), h))"
    unfolding mark_field_def pv_def Let_def using sp na(2)
    by (simp del: get_prop.simps)
  then show ?thesis using nb na(1) nt by (simp del: get_prop.simps)
qed

lemma targets_cong:
  "(\<And>f. f \<in> set fs \<Longrightarrow> target r h1 f = target r h f) \<Longrightarrow> targets r h1 fs = targets r h fs"
  by (induction fs) (simp_all split: option.splits)

lemma set_targets: "s \<in> set (targets r h fs) \<longleftrightarrow> (\<exists>f\<in>set fs. target r h f = Some s)"
  by (induction fs) (auto split: option.splits)

lemma mark_fields_wrap_slots:
  assumes "r < used h" and "nested_ok r h fs"
  shows "mark_fields r h fs = (Inr (), wrap_slots h (targets r h fs))"
  using assms
proof (induction fs arbitrary: h)
  case Nil
  show ?case by simp
next
  case (Cons f fs)
  have ok_rest: "nested_ok r h fs"
    using Cons.prems(2) unfolding nested_ok_def by auto
  have here: "path_of f \<in> path_of ` set (f # fs)" by simp
  have tops: "g \<noteq> ''__proto__''" if "path_of f = Top g" for g
    using Cons.prems(2) here that unfolding nested_ok_def by metis
  have nests: "p \<noteq> ''__proto__'' \<and> c \<noteq> ''__proto__'' \<and>
               plain_parent h (get_prop h (JRef r) p) c \<and>
               (\<forall>a. get_prop h (JRef r) p = JRef a \<longrightarrow> a \<noteq> r)"
    if "path_of f = Nested p c" for p c
    using Cons.prems(2) here that unfolding nested_ok_def by metis
  show ?case
  proof (cases "target r h f")
    case None
    then obtain p c where pc: "path_of f = Nested p c"
      by (cases "path_of f") (auto simp add: target_def)
    have "plain_parent h (get_prop h (JRef r) p) c \<and> p \<noteq> ''__proto__'' \<and> c \<noteq> ''__proto__''"
      using nests [OF pc] by simp
    then have "mark_field r h f = (Inr (), h)"
      using None pc by (intro mark_field_no_target) auto
    then show ?thesis
      using Cons.IH [OF Cons.prems(1) ok_rest] None by simp
  next
    case (Some s)
    let ?h1 = "wrap_slot h s"
    have key: "snd s \<noteq> ''__proto__''"
    proof (cases "path_of f")
      case (Top g)
      then have "s = (r, g)" using Some by (simp add: target_def)
      moreover have "g \<noteq> ''__proto__''" using Top by (rule tops)
      ultimately show ?thesis by simp
    next
      case (Nested p' c')
      then obtain a where "s = (a, c')"
        using Some by (auto simp add: target_def split: jsval.splits)
      moreover have "c' \<noteq> ''__proto__''" using nests [OF Nested] by simp
      ultimately show ?thesis by simp
    qed
    have par: "\<forall>p c. path_of f = Nested p c \<longrightarrow> p \<noteq> ''__proto__''"
      using nests by blast
    have step: "mark_field r h f = (Inr (), ?h1)"
      using Some key par by (rule mark_field_target)
    have r1: "r < used ?h1" using Cons.prems(1) wrap_slot_used [of h s] by simp
    have stable: "get_prop ?h1 (JRef r) p = get_prop h (JRef r) p"
      if "Nested p c \<in> path_of ` set fs" for p c
    proof -
      have np: "Top p \<notin> path_of ` set (f # fs)"
        using Cons.prems(2) that unfolding nested_ok_def by auto
      have "(r, p) \<noteq> s"
      proof (cases "path_of f")
        case (Top g)
        then have "s = (r, g)" using Some by (simp add: target_def)
        moreover have "g \<noteq> p" using np Top by auto
        ultimately show ?thesis by simp
      next
        case (Nested p' c')
        then obtain a where "get_prop h (JRef r) p' = JRef a" "s = (a, c')"
          using Some by (auto simp add: target_def split: jsval.splits)
        moreover have "a \<noteq> r"
          using nests [OF Nested] calculation(1) by blast
        ultimately show ?thesis by simp
      qed
      then have "cells ?h1 r p = cells h r p"
        using Cons.prems(1) by (intro wrap_slot_frame) auto
      then show ?thesis by simp
    qed
    have par1: "plain_parent ?h1 (get_prop ?h1 (JRef r) p) c"
      if pc: "Nested p c \<in> path_of ` set fs" for p c
    proof -
      have pp: "plain_parent h (get_prop h (JRef r) p) c"
        using ok_rest pc unfolding nested_ok_def by blast
      show ?thesis
      proof (cases "\<exists>a. get_prop h (JRef r) p = JRef a")
        case True
        then show ?thesis using stable [OF pc] by auto
      next
        case False
        then show ?thesis using stable [OF pc] pp plain_parent_heap [of _ ?h1 c h] by auto
      qed
    qed
    have ok1: "nested_ok r ?h1 fs"
      unfolding nested_ok_def
    proof (intro conjI allI impI)
      fix g assume "Top g \<in> path_of ` set fs"
      then show "g \<noteq> ''__proto__''" using ok_rest unfolding nested_ok_def by blast
    next
      fix p c assume pc: "Nested p c \<in> path_of ` set fs"
      show "Top p \<notin> path_of ` set fs" "p \<noteq> ''__proto__''" "c \<noteq> ''__proto__''"
        using ok_rest pc unfolding nested_ok_def by blast+
      show "plain_parent ?h1 (get_prop ?h1 (JRef r) p) c" using pc by (rule par1)
      fix a assume "get_prop ?h1 (JRef r) p = JRef a"
      then have "get_prop h (JRef r) p = JRef a" using stable [OF pc] by simp
      then show "a \<noteq> r" using ok_rest pc unfolding nested_ok_def by blast
    qed
    have tgt: "target r ?h1 g = target r h g" if "g \<in> set fs" for g
    proof (cases "path_of g")
      case (Top x)
      then show ?thesis by (simp add: target_def)
    next
      case (Nested p c)
      then have "Nested p c \<in> path_of ` set fs" using that by force
      then show ?thesis using stable Nested by (simp add: target_def)
    qed
    have "targets r ?h1 fs = targets r h fs"
      using tgt by (rule targets_cong)
    then show ?thesis
      using Cons.IH [OF r1 ok1] step Some by simp
  qed
qed

lemma distinct_targets:
  assumes "distinct fs"
    and "\<And>x y s. x \<in> set fs \<Longrightarrow> y \<in> set fs \<Longrightarrow> target r h x = Some s \<Longrightarrow>
           target r h y = Some s \<Longrightarrow> x = y"
  shows "distinct (targets r h fs)"
  using assms
proof (induction fs)
  case Nil
  show ?case by simp
next
  case (Cons x xs)
  have IH: "distinct (targets r h xs)"
    using Cons.prems by (intro Cons.IH) auto
  show ?case
  proof (cases "target r h x")
    case None
    then show ?thesis using IH by simp
  next
    case (Some s)
    have "s \<notin> set (targets r h xs)"
    proof
      assume "s \<in> set (targets r h xs)"
      then obtain y where y: "y \<in> set xs" "target r h y = Some s"
        by (auto simp add: set_targets)
      then have "x = y" using Cons.prems(2) [of x y s] Some by simp
      then show False using Cons.prems(1) y by simp
    qed
    then show ?thesis using IH Some by simp
  qed
qed

text \<open>
  Claim C1, as the code has it. Take a record whose object-valued fields refer
  to allocated, pairwise different objects, and a list of pairwise different
  field paths of which no component is \<open>__proto__\<close> and in which the parent of
  a nested path is not listed itself and is, as the record has it, an object,
  a falsy or absent value, or a primitive value of which the child is not a
  truthy member (the length of a string, one of its characters and the methods
  a string inherits are such members); a parent that the record lacks and
  inherits from \<open>Object.prototype\<close>, such as \<open>constructor\<close>, is none of these.
  The marker returns, without raising, a new record at a fresh address, and for
  every listed path: when the value \<open>v\<close> read at the path is truthy, the path
  holds a reference to a newly allocated object whose only property is
  \<open>'%allot'\<close> with value \<open>v\<close>; when the value is falsy (the empty string, zero,
  \<open>false\<close>, \<open>null\<close>) or the path is absent, the path is as it was, so no key is
  inserted. The value read at a path is the own property or, for a name that
  the object lacks and \<open>Object.prototype\<close> provides (\<open>constructor\<close>,
  \<open>toString\<close>, ...), the inherited function, which is truthy: the path is absent
  only when neither exists. For a nested path the parent field of the result is
  the reference the input has, and the child is replaced inside the object it
  refers to.
\<close>

theorem prepareDataForEncryption_marks:
  assumes live: "data < used h"
    and refs: "\<forall>k a. cells h data k = Some (JRef a) \<longrightarrow> a < used h"
    and unshared: "\<forall>k k' a. cells h data k = Some (JRef a) \<longrightarrow>
                     cells h data k' = Some (JRef a) \<longrightarrow> k = k'"
    and dist: "distinct (map path_of fs)"
    and names: "\<forall>f. Top f \<in> set (map path_of fs) \<longrightarrow> f \<noteq> ''__proto__''"
    and nest: "\<forall>p c. Nested p c \<in> set (map path_of fs) \<longrightarrow>
                 Top p \<notin> set (map path_of fs) \<and> p \<noteq> ''__proto__'' \<and> c \<noteq> ''__proto__'' \<and>
                 plain_parent h (get_prop h (JRef data) p) c"
  shows "\<exists>h'. prepareDataForEncryption h data fs = (Inr (used h), h') \<and>
           (\<forall>f. Top f \<in> set (map path_of fs) \<longrightarrow> marked h (data, f) h' (used h, f)) \<and>
           (\<forall>p c. Nested p c \<in> set (map path_of fs) \<longrightarrow>
              cells h' (used h) p = cells h data p \<and>
              (\<forall>a. cells h data p = Some (JRef a) \<longrightarrow> marked h (a, c) h' (a, c)))"
proof -
  define r where "r = used h"
  define h1 where "h1 = fst (alloc h (cells h data))"
  define ts where "ts = targets r h1 fs"
  define h' where "h' = wrap_slots h1 ts"
  have used1: "used h1 = Suc r" by (simp add: h1_def r_def alloc_def)
  have cells_r: "cells h1 r = cells h data" by (simp add: h1_def r_def alloc_def)
  have cells_old: "cells h1 a = cells h a" if "a < r" for a
    using that by (simp add: h1_def r_def alloc_def)
  have get_r: "get_prop h1 (JRef r) k = get_prop h (JRef data) k" for k
    by (simp add: cells_r)
  have get_old: "get_prop h1 (JRef a) k = get_prop h (JRef a) k" if "a < r" for a k
    using that by (simp add: cells_old)
  have parent_cell: "cells h data p = Some (JRef a)" if "get_prop h (JRef data) p = JRef a" for p a
    using that by (rule get_prop_ref_own)
  have parent_ref: "a < r" if "get_prop h (JRef data) p = JRef a" for p a
    using parent_cell [OF that] refs by (simp add: r_def)
  have nestD: "Top p \<notin> path_of ` set fs \<and> p \<noteq> ''__proto__'' \<and> c \<noteq> ''__proto__'' \<and>
               plain_parent h (get_prop h (JRef data) p) c"
    if "Nested p c \<in> path_of ` set fs" for p c
    using nest that by simp
  have ok: "nested_ok r h1 fs"
    unfolding nested_ok_def
  proof (intro allI impI conjI)
    fix f assume "Top f \<in> path_of ` set fs"
    then show "f \<noteq> ''__proto__''" using names by simp
  next
    fix p c assume pc: "Nested p c \<in> path_of ` set fs"
    show "Top p \<notin> path_of ` set fs" "p \<noteq> ''__proto__''" "c \<noteq> ''__proto__''"
      using nestD [OF pc] by simp_all
    have pp: "plain_parent h (get_prop h (JRef data) p) c" using nestD [OF pc] by simp
    show "plain_parent h1 (get_prop h1 (JRef r) p) c"
    proof (cases "\<exists>a. get_prop h (JRef data) p = JRef a")
      case True
      then show ?thesis using get_r [of p] by auto
    next
      case False
      then show ?thesis using get_r [of p] pp plain_parent_heap [of _ h1 c h] by auto
    qed
    show "a \<noteq> r" if "get_prop h1 (JRef r) p = JRef a" for a
      using parent_ref [of p a] that get_r [of p] by simp
  qed
  have run: "mark_fields r h1 fs = (Inr (), h')"
    unfolding h'_def ts_def using ok by (intro mark_fields_wrap_slots) (simp add: used1)
  have pde: "prepareDataForEncryption h data fs = (Inr (used h), h')"
    using run by (simp add: prepareDataForEncryption_def alloc_def h1_def r_def)
  have mem: "s \<in> set ts \<longleftrightarrow> (\<exists>f\<in>set fs. target r h1 f = Some s)" for s
    by (simp add: ts_def set_targets)
  have tgt_Top: "target r h1 f = Some (r, g)" if "path_of f = Top g" for f g
    using that by (simp add: target_def)
  have tgt_Nested: "target r h1 f = Some (a, c)"
    if "path_of f = Nested p c" "cells h data p = Some (JRef a)" for f p c a
    using that by (simp add: target_def cells_r)
  have tgt_cases: "(\<exists>g. path_of f = Top g \<and> s = (r, g)) \<or>
      (\<exists>p c a. path_of f = Nested p c \<and> cells h data p = Some (JRef a) \<and> a < r \<and> s = (a, c))"
    if "target r h1 f = Some s" for f s
  proof (cases "path_of f")
    case (Top g)
    then show ?thesis using that by (simp add: target_def)
  next
    case (Nested p c)
    have t: "(case get_prop h1 (JRef r) p of JRef a \<Rightarrow> Some (a, c) | _ \<Rightarrow> None) = Some s"
      using that Nested by (simp add: target_def)
    then obtain a where a: "get_prop h1 (JRef r) p = JRef a" "s = (a, c)"
      by (cases "get_prop h1 (JRef r) p") auto
    have "get_prop h (JRef data) p = JRef a" using a(1) get_r by simp
    then show ?thesis using Nested a(2) parent_ref [of p a] parent_cell [of p a] by simp
  qed
  have inj: "x = y"
    if "x \<in> set fs" "y \<in> set fs" "target r h1 x = Some s" "target r h1 y = Some s" for x y s
  proof -
    have "path_of x = path_of y"
      using tgt_cases [OF that(3)] tgt_cases [OF that(4)] unshared by auto
    then show ?thesis using dist that(1,2) by (auto simp add: distinct_map inj_on_def)
  qed
  have dts: "distinct ts"
    unfolding ts_def using dist inj by (intro distinct_targets) (auto simp add: distinct_map)
  have bound: "\<forall>s\<in>set ts. fst s < Suc r"
    using tgt_cases by (fastforce simp add: mem)
  have slot: "if truthy (get_prop h1 (JRef a) k)
         then (\<exists>w. used h1 \<le> w \<and> w < used h' \<and> cells h' a k = Some (JRef w) \<and>
                cells h' w = allot (get_prop h1 (JRef a) k))
         else cells h' a k = cells h1 a k" if "(a, k) \<in> set ts" for a k
    unfolding h'_def using dts bound _ that by (rule wrap_slots_slot) (simp add: used1)
  have top: "marked h (data, f) h' (used h, f)" if tf: "Top f \<in> set (map path_of fs)" for f
  proof -
    obtain x where "x \<in> set fs" "path_of x = Top f" using tf by auto
    then have "(r, f) \<in> set ts" using tgt_Top mem by blast
    then show ?thesis
      using slot [of r f] by (auto simp add: marked_def cells_r used1 r_def [symmetric])
  qed
  have nested: "cells h' (used h) p = cells h data p \<and>
      (\<forall>a. cells h data p = Some (JRef a) \<longrightarrow> marked h (a, c) h' (a, c))"
    if pc: "Nested p c \<in> set (map path_of fs)" for p c
  proof
    obtain x where x: "x \<in> set fs" "path_of x = Nested p c" using pc by auto
    have "(r, p) \<notin> set ts"
    proof
      assume "(r, p) \<in> set ts"
      then obtain f where "f \<in> set fs" "target r h1 f = Some (r, p)" using mem by blast
      then have "path_of f = Top p" using tgt_cases [of f "(r, p)"] by auto
      then have "Top p \<in> path_of ` set fs" using \<open>f \<in> set fs\<close> by force
      then show False using nestD pc by auto
    qed
    then have "cells h' r p = cells h1 r p"
      unfolding h'_def by (intro wrap_slots_frame) (simp_all add: used1)
    then show "cells h' (used h) p = cells h data p" using cells_r by (simp add: r_def)
    show "\<forall>a. cells h data p = Some (JRef a) \<longrightarrow> marked h (a, c) h' (a, c)"
    proof (intro allI impI)
      fix a assume a: "cells h data p = Some (JRef a)"
      then have lt: "a < r" using refs by (simp add: r_def)
      have "(a, c) \<in> set ts" using tgt_Nested [OF x(2) a] x(1) mem by blast
      then show "marked h (a, c) h' (a, c)"
        using slot [of a c] lt
        by (auto simp add: marked_def cells_old used1 r_def [symmetric])
    qed
  qed
  show ?thesis using pde top nested by blast
qed

lemma example_paths:
  "map path_of [''provider_name'', ''contact_info'', ''service_details.title'', ''meeting_link'',
                ''price.amount'', ''constructor'']
   = [Top ''provider_name'', Top ''contact_info'', Nested ''service_details'' ''title'',
      Top ''meeting_link'', Nested ''price'' ''amount'', Top ''constructor'']"
  by (simp add: path_of_def includes_dot_def)

theorem prepareDataForEncryption_marks_witness:
  "\<exists>h'. prepareDataForEncryption example_listing 0
           [''provider_name'', ''contact_info'', ''service_details.title'', ''meeting_link'',
            ''price.amount'', ''constructor''] = (Inr 2, h') \<and>
         marked example_listing (0, ''provider_name'') h' (2, ''provider_name'') \<and>
         marked example_listing (0, ''contact_info'') h' (2, ''contact_info'') \<and>
         marked example_listing (0, ''meeting_link'') h' (2, ''meeting_link'') \<and>
         cells h' 2 ''service_details'' = Some (JRef 1) \<and>
         marked example_listing (1, ''title'') h' (1, ''title'') \<and>
         cells h' 2 ''price'' = None \<and>
         (\<exists>w. cells h' 2 ''constructor'' = Some (JRef w) \<and>
              cells h' w = allot (JBuiltin ''Object.prototype.constructor''))"
proof -
  let ?fs = "[''provider_name'', ''contact_info'', ''service_details.title'', ''meeting_link'',
              ''price.amount'', ''constructor'']"
  have live: "0 < used example_listing"
    by (simp add: example_listing_def)
  have refs: "\<forall>k a. cells example_listing 0 k = Some (JRef a) \<longrightarrow> a < used example_listing"
    by (auto simp add: example_listing_def split: if_splits)
  have unshared: "\<forall>k k' a. cells example_listing 0 k = Some (JRef a) \<longrightarrow>
                    cells example_listing 0 k' = Some (JRef a) \<longrightarrow> k = k'"
    by (auto simp add: example_listing_def split: if_splits)
  have dist: "distinct (map path_of ?fs)"
    unfolding example_paths by simp
  have names: "\<forall>f. Top f \<in> set (map path_of ?fs) \<longrightarrow> f \<noteq> ''__proto__''"
    unfolding example_paths by auto
  have p1: "plain_parent example_listing
              (get_prop example_listing (JRef 0) ''service_details'') ''title''"
    and p2: "plain_parent example_listing
              (get_prop example_listing (JRef 0) ''price'') ''amount''"
    by (simp_all add: example_listing_def prototype_eval)
  have nest: "\<forall>p c. Nested p c \<in> set (map path_of ?fs) \<longrightarrow>
                Top p \<notin> set (map path_of ?fs) \<and> p \<noteq> ''__proto__'' \<and> c \<noteq> ''__proto__'' \<and>
                plain_parent example_listing (get_prop example_listing (JRef 0) p) c"
    unfolding example_paths using p1 p2 by auto
  obtain h' where h':
    "prepareDataForEncryption example_listing 0 ?fs = (Inr (used example_listing), h')"
    "\<forall>f. Top f \<in> set (map path_of ?fs) \<longrightarrow>
         marked example_listing (0, f) h' (used example_listing, f)"
    "\<forall>p c. Nested p c \<in> set (map path_of ?fs) \<longrightarrow>
         cells h' (used example_listing) p = cells example_listing 0 p \<and>
         (\<forall>a. cells example_listing 0 p = Some (JRef a) \<longrightarrow>
              marked example_listing (a, c) h' (a, c))"
    using prepareDataForEncryption_marks [OF live refs unshared dist names nest] by blast
  have u: "used example_listing = 2" by (simp add: example_listing_def)
  have c1: "cells example_listing 0 ''service_details'' = Some (JRef 1)"
    by (simp add: example_listing_def)
  have c2: "cells example_listing 0 ''price'' = None"
    by (simp add: example_listing_def)
  have "marked example_listing (0, ''provider_name'') h' (2, ''provider_name'')"
    and "marked example_listing (0, ''contact_info'') h' (2, ''contact_info'')"
    and "marked example_listing (0, ''meeting_link'') h' (2, ''meeting_link'')"
    using h'(2) unfolding example_paths u by simp_all
  moreover have "cells h' 2 ''service_details'' = Some (JRef 1)"
    and "marked example_listing (1, ''title'') h' (1, ''title'')"
    using h'(3) c1 unfolding example_paths u by simp_all
  moreover have "cells h' 2 ''price'' = None"
    using h'(3) c2 unfolding example_paths u by simp
  moreover have "\<exists>w. cells h' 2 ''constructor'' = Some (JRef w) \<and>
                   cells h' w = allot (JBuiltin ''Object.prototype.constructor'')"
  proof -
    have "marked example_listing (0, ''constructor'') h' (2, ''constructor'')"
      using h'(2) unfolding example_paths u by simp
    moreover have "get_prop example_listing (JRef 0) ''constructor''
                     = JBuiltin ''Object.prototype.constructor''"
      by (simp add: example_listing_def prototype_eval)
    ultimately show ?thesis by (auto simp add: marked_def simp del: get_prop.simps)
  qed
  ultimately show ?thesis using h'(1) u by auto
qed

lemma path_of_no_dot: "\<not> includes_dot f \<Longrightarrow> path_of f = Top f"
  by (simp add: path_of_def)

lemma targets_top_level:
  "\<forall>f\<in>set fs. \<not> includes_dot f \<Longrightarrow> targets r h fs = map (Pair r) fs"
  by (induction fs) (simp_all add: target_def path_of_no_dot)

lemma marker_top_level_run:
  assumes live: "data < used h" and top: "\<forall>f\<in>set fs. \<not> includes_dot f"
    and names: "''__proto__'' \<notin> set fs"
  shows "prepareDataForEncryption h data fs =
           (Inr (used h), wrap_slots (fst (alloc h (cells h data))) (map (Pair (used h)) fs))"
proof -
  define r where "r = used h"
  define h1 where "h1 = fst (alloc h (cells h data))"
  have used1: "used h1 = Suc r" by (simp add: h1_def r_def alloc_def)
  have paths: "path_of ` set fs = Top ` set fs"
    using top by (auto simp add: path_of_no_dot image_iff)
  have ok: "nested_ok r h1 fs"
    unfolding nested_ok_def paths using names by auto
  have "mark_fields r h1 fs = (Inr (), wrap_slots h1 (targets r h1 fs))"
    using ok by (intro mark_fields_wrap_slots) (simp add: used1)
  then have run: "mark_fields r h1 fs = (Inr (), wrap_slots h1 (map (Pair r) fs))"
    using top by (simp add: targets_top_level)
  show ?thesis
    using run by (simp add: prepareDataForEncryption_def alloc_def h1_def r_def)
qed

lemma marker_top_level_frame:
  assumes live: "data < used h" and top: "\<forall>f\<in>set fs. \<not> includes_dot f"
    and names: "''__proto__'' \<notin> set fs"
  shows "\<exists>h'. prepareDataForEncryption h data fs = (Inr (used h), h') \<and>
           (\<forall>k. k \<notin> set fs \<longrightarrow> cells h' (used h) k = cells h data k) \<and>
           (\<forall>a<used h. cells h' a = cells h a)"
proof -
  define r where "r = used h"
  define h1 where "h1 = fst (alloc h (cells h data))"
  define h' where "h' = wrap_slots h1 (map (Pair r) fs)"
  have used1: "used h1 = Suc r" by (simp add: h1_def r_def alloc_def)
  have cells_r: "cells h1 r = cells h data" by (simp add: h1_def r_def alloc_def)
  have cells_old: "cells h1 a = cells h a" if "a < r" for a
    using that by (simp add: h1_def r_def alloc_def)
  have pde: "prepareDataForEncryption h data fs = (Inr (used h), h')"
    using marker_top_level_run [OF live top names] by (simp add: h'_def h1_def r_def)
  have others: "cells h' (used h) k = cells h data k" if "k \<notin> set fs" for k
  proof -
    have "(r, k) \<notin> set (map (Pair r) fs)" using that by auto
    then have "cells h' r k = cells h1 r k"
      unfolding h'_def by (intro wrap_slots_frame) (simp_all add: used1)
    then show ?thesis using cells_r by (simp add: r_def)
  qed
  have old: "cells h' a = cells h a" if "a < used h" for a
  proof -
    have "a < r" using that by (simp add: r_def)
    then have "cells h' a = cells h1 a"
      unfolding h'_def by (intro wrap_slots_frame_obj) (auto simp add: used1)
    then show ?thesis using cells_old \<open>a < r\<close> by simp
  qed
  show ?thesis using pde others old by blast
qed

lemma marker_top_level:
  assumes live: "data < used h" and dist: "distinct fs"
    and top: "\<forall>f\<in>set fs. \<not> includes_dot f"
    and names: "''__proto__'' \<notin> set fs"
  shows "\<exists>h'. prepareDataForEncryption h data fs = (Inr (used h), h') \<and>
           (\<forall>f\<in>set fs. marked h (data, f) h' (used h, f)) \<and>
           (\<forall>k. k \<notin> set fs \<longrightarrow> cells h' (used h) k = cells h data k) \<and>
           (\<forall>a<used h. cells h' a = cells h a)"
proof -
  define r where "r = used h"
  define h1 where "h1 = fst (alloc h (cells h data))"
  define h' where "h' = wrap_slots h1 (map (Pair r) fs)"
  have used1: "used h1 = Suc r" by (simp add: h1_def r_def alloc_def)
  have cells_r: "cells h1 r = cells h data" by (simp add: h1_def r_def alloc_def)
  have pde: "prepareDataForEncryption h data fs = (Inr (used h), h')"
    using marker_top_level_run [OF live top names] by (simp add: h'_def h1_def r_def)
  have dts: "distinct (map (Pair r) fs)"
    using dist by (simp add: distinct_map inj_on_def)
  have bound: "\<forall>s\<in>set (map (Pair r) fs). fst s < Suc r" by simp
  have slot: "if truthy (get_prop h1 (JRef r) k)
         then (\<exists>w. used h1 \<le> w \<and> w < used h' \<and> cells h' r k = Some (JRef w) \<and>
                cells h' w = allot (get_prop h1 (JRef r) k))
         else cells h' r k = cells h1 r k" if "k \<in> set fs" for k
    unfolding h'_def using dts bound
  proof (rule wrap_slots_slot)
    show "Suc r \<le> used h1" by (simp add: used1)
    show "(r, k) \<in> set (map (Pair r) fs)" using that by simp
  qed
  have m: "marked h (data, f) h' (used h, f)" if "f \<in> set fs" for f
    using slot [OF that] by (auto simp add: marked_def cells_r used1 r_def [symmetric])
  obtain h'' where fr: "prepareDataForEncryption h data fs = (Inr (used h), h'')"
    "\<forall>k. k \<notin> set fs \<longrightarrow> cells h'' (used h) k = cells h data k"
    "\<forall>a<used h. cells h'' a = cells h a"
    using marker_top_level_frame [OF live top names] by blast
  have "h'' = h'" using fr(1) pde by simp
  then show ?thesis using pde m fr(2,3) by blast
qed

text \<open>The definitions to unfold for running the marker on a concrete heap.\<close>

lemmas marker_eval =
  prepareDataForEncryption_def mark_field_def alloc_def allot_def includes_dot_def Let_def
  prototype_eval

text \<open>
  Claim C1 as stated fails: the field \<open>contact_info\<close> of \<open>example_listing\<close> is
  present and listed, its value is the empty string, and the result holds the
  plain empty string at that path, not a wrapper.
\<close>

theorem marker_skips_empty_string:
  "cells example_listing 0 ''contact_info'' = Some (JStr '''') \<and>
   fst (prepareDataForEncryption example_listing 0 [''contact_info'']) = Inr 2 \<and>
   cells (snd (prepareDataForEncryption example_listing 0 [''contact_info''])) 2 ''contact_info''
     = Some (JStr '''')"
  by (simp add: marker_eval example_listing_def)

text \<open>
  A name that the record lacks and \<open>Object.prototype\<close> provides is read as the
  inherited function, so the marker inserts a key for it: for the list
  \<open>['constructor']\<close> the result has the own property \<open>constructor\<close>, a wrapper
  of the built-in function.
\<close>

lemma marker_wraps_inherited_member:
  "cells example_listing 0 ''constructor'' = None \<and>
   fst (prepareDataForEncryption example_listing 0 [''constructor'']) = Inr 2 \<and>
   cells (snd (prepareDataForEncryption example_listing 0 [''constructor''])) 2 ''constructor''
     = Some (JRef 3) \<and>
   cells (snd (prepareDataForEncryption example_listing 0 [''constructor''])) 3
     = allot (JBuiltin ''Object.prototype.constructor'')"
  by (simp add: marker_eval example_listing_def)

text \<open>
  Why a primitive parent with a truthy member is excluded above: the length of
  a non-empty string and the methods a string inherits are truthy, and the
  assignment to a property of a primitive value raises.
\<close>

lemma marker_raises_on_string_parent:
  "fst (prepareDataForEncryption example_listing 0 [''provider_name.length''])
     = Inl (TypeError ''string'' ''length'') \<and>
   fst (prepareDataForEncryption example_listing 0 [''provider_name.toString''])
     = Inl (TypeError ''string'' ''toString'')"
  by (simp add: marker_eval example_listing_def array_index_def)

text \<open>
  Why \<open>__proto__\<close> and an inherited parent are excluded above: the run leaves
  the heap of the records.
\<close>

lemma marker_leaves_heap:
  "fst (prepareDataForEncryption example_listing 0 [''__proto__''])
     = Inl (Intrinsic ''__proto__'') \<and>
   fst (prepareDataForEncryption example_listing 0 [''constructor.name''])
     = Inl (Intrinsic ''name'')"
  by (simp add: marker_eval example_listing_def)

text \<open>
  Claim C2, as the code has it, for the lists of top-level fields (every list
  that the provider passes to the marker is one). The marker returns a new
  record at a fresh address, different from the input; every object that
  existed before the call, the input record and the objects it refers to among
  them, is unchanged; and every field of the result that is not listed has the
  value that the input has. For a field that holds an object this value is the
  reference: the result shares the nested object with the input and holds no
  copy of it.
\<close>

theorem prepareDataForEncryption_frame:
  assumes "data < used h" and "\<forall>f\<in>set fs. \<not> includes_dot f" and "''__proto__'' \<notin> set fs"
  shows "\<exists>h'. prepareDataForEncryption h data fs = (Inr (used h), h') \<and>
           used h \<noteq> data \<and>
           (\<forall>a<used h. cells h' a = cells h a) \<and>
           (\<forall>k. k \<notin> set fs \<longrightarrow> cells h' (used h) k = cells h data k)"
  using marker_top_level_frame [OF assms] assms(1) by auto

theorem prepareDataForEncryption_frame_witness:
  "\<exists>h'. prepareDataForEncryption example_inputs 0
           [''provider_name'', ''provider_id'', ''contact_info''] = (Inr 6, h') \<and>
         cells h' 0 = cells example_inputs 0 \<and>
         cells h' 1 = cells example_inputs 1 \<and>
         cells h' 6 ''service_type'' = Some (JStr ''tutoring'') \<and>
         cells h' 6 ''service_details'' = Some (JRef 1)"
proof -
  let ?fs = "[''provider_name'', ''provider_id'', ''contact_info'']"
  have u: "used example_inputs = 6" by (simp add: example_inputs_def)
  have "0 < used example_inputs" by (simp add: u)
  moreover have "\<forall>f\<in>set ?fs. \<not> includes_dot f" by (simp add: includes_dot_def)
  moreover have "''__proto__'' \<notin> set ?fs" by simp
  ultimately obtain h' where h':
    "prepareDataForEncryption example_inputs 0 ?fs = (Inr (used example_inputs), h')"
    "\<forall>a<used example_inputs. cells h' a = cells example_inputs a"
    "\<forall>k. k \<notin> set ?fs \<longrightarrow> cells h' (used example_inputs) k = cells example_inputs 0 k"
    using prepareDataForEncryption_frame [of 0 example_inputs ?fs] by blast
  have "cells h' 0 = cells example_inputs 0" and "cells h' 1 = cells example_inputs 1"
    using h'(2) by (simp_all add: u)
  moreover have "cells h' 6 ''service_type'' = Some (JStr ''tutoring'')"
    and "cells h' 6 ''service_details'' = Some (JRef 1)"
    using h'(3) by (simp_all add: u example_inputs_def)
  ultimately show ?thesis using h'(1) u by auto
qed

text \<open>
  Claim C2 as stated fails on a list that the provider passes: the fields the
  list does not name are not copies that differ in reference from the input.
  For the listing of \<open>example_inputs\<close> and the confidential fields of a service
  listing, the field \<open>service_details\<close> of the result (address 6) is the very
  reference that the input holds (address 1).
\<close>

theorem marker_shares_nested_blocks:
  "cells example_inputs 0 ''service_details'' = Some (JRef 1) \<and>
   fst (prepareDataForEncryption example_inputs 0
          [''provider_name'', ''provider_id'', ''contact_info'']) = Inr 6 \<and>
   cells (snd (prepareDataForEncryption example_inputs 0
                 [''provider_name'', ''provider_id'', ''contact_info''])) 6 ''service_details''
     = Some (JRef 1)"
  by (simp add: marker_eval example_inputs_def)

text \<open>
  The branch for nested paths, which no call of the provider enters, assigns
  through that shared reference. For \<open>example_listing\<close> and the path
  \<open>service_details.title\<close> the result (address 2) has as \<open>service_details\<close> the
  reference of the input (address 1), and the \<open>title\<close> of that object becomes a
  reference to the wrapper (address 3).
\<close>

lemma marker_nested_assignment:
  "cells example_listing 1 ''title'' = Some (JStr ''Spanish'') \<and>
   fst (prepareDataForEncryption example_listing 0 [''service_details.title'']) = Inr 2 \<and>
   cells (snd (prepareDataForEncryption example_listing 0 [''service_details.title''])) 1 ''title''
     = Some (JRef 3) \<and>
   cells (snd (prepareDataForEncryption example_listing 0 [''service_details.title''])) 2
     ''service_details'' = Some (JRef 1)"
  by (simp add: marker_eval example_listing_def)

text \<open>
  Claim C4: the marker is not idempotent. For every record and top-level field
  with a truthy value \<open>v\<close>, marking the field gives a wrapper \<open>w1\<close> of \<open>v\<close>, and
  marking the same field of the result again gives a wrapper \<open>w2\<close> whose content
  is the reference to \<open>w1\<close>, that is \<open>{ '%allot': { '%allot': v } }\<close>, and the two
  wrappers differ.
\<close>

theorem marker_double_wrap:
  assumes "data < used h" and "\<not> includes_dot f"
    and "truthy (get_prop h (JRef data) f)"
    and "\<forall>a. get_prop h (JRef data) f = JRef a \<longrightarrow> a < used h"
  shows "\<exists>h1 h2 w1 w2 r1 r2.
           prepareDataForEncryption h data [f] = (Inr r1, h1) \<and>
           prepareDataForEncryption h1 r1 [f] = (Inr r2, h2) \<and>
           cells h1 r1 f = Some (JRef w1) \<and> cells h1 w1 = allot (get_prop h (JRef data) f) \<and>
           cells h2 r2 f = Some (JRef w2) \<and> cells h2 w2 = allot (JRef w1) \<and>
           cells h2 w1 = allot (get_prop h (JRef data) f) \<and>
           cells h2 w2 \<noteq> cells h1 w1"
proof -
  let ?v = "get_prop h (JRef data) f"
  have ne: "JRef (Suc (used h)) \<noteq> ?v"
  proof
    assume "JRef (Suc (used h)) = ?v"
    then have "Suc (used h) < used h" using assms(4) by metis
    then show False by simp
  qed
  have "allot (JRef (Suc (used h))) ''%allot'' \<noteq> allot ?v ''%allot''"
    using ne by (simp add: allot_def)
  then have diff: "allot (JRef (Suc (used h))) \<noteq> allot ?v" by metis
  have own: "f = ''__proto__'' \<longrightarrow> cells h data f \<noteq> None"
    using assms(3) by (auto simp add: prototype_eval split: option.splits)
  show ?thesis
    using assms(1,2,3) diff own
    by (simp add: prepareDataForEncryption_def mark_field_def alloc_def runs_accessor_def)
qed

theorem marker_double_wrap_witness:
  "\<exists>h1 h2 w1 w2 r1 r2.
     prepareDataForEncryption example_listing 0 [''provider_name''] = (Inr r1, h1) \<and>
     prepareDataForEncryption h1 r1 [''provider_name''] = (Inr r2, h2) \<and>
     cells h1 r1 ''provider_name'' = Some (JRef w1) \<and> cells h1 w1 = allot (JStr ''Ana'') \<and>
     cells h2 r2 ''provider_name'' = Some (JRef w2) \<and> cells h2 w2 = allot (JRef w1) \<and>
     cells h2 w1 = allot (JStr ''Ana'') \<and>
     cells h2 w2 \<noteq> cells h1 w1"
proof -
  have v: "get_prop example_listing (JRef 0) ''provider_name'' = JStr ''Ana''"
    by (simp add: example_listing_def)
  have "0 < used example_listing" by (simp add: example_listing_def)
  moreover have "\<not> includes_dot ''provider_name''" by (simp add: includes_dot_def)
  moreover have "truthy (get_prop example_listing (JRef 0) ''provider_name'')"
    unfolding v by simp
  moreover have "\<forall>a. get_prop example_listing (JRef 0) ''provider_name'' = JRef a \<longrightarrow>
                   a < used example_listing"
    unfolding v by simp
  ultimately show ?thesis
    using marker_double_wrap [of 0 example_listing "''provider_name''"] unfolding v by simp
qed

section \<open>The record builders\<close>

lemma marked_confidential:
  assumes "marked h (a, k) h' (r, k)" and "cells h a k = Some (JStr s)"
  shows "confidential h' r k s"
  using assms by (auto simp add: marked_def confidential_def wrapped_def)

lemma serviceData_record:
  assumes "cells h args ''provider_name'' = Some (JStr pn)"
    and "cells h args ''provider_id'' = Some (JStr pid)"
    and "cells h args ''contact_info'' = Some (JStr ci)"
  shows "\<exists>r h'. serviceData h args uuid = (Inr r, h') \<and>
           cells h' r ''_id'' = Some (JStr uuid) \<and>
           cells h' r ''status'' = Some (JStr ''available'') \<and>
           confidential h' r ''provider_name'' pn \<and>
           confidential h' r ''provider_id'' pid \<and>
           confidential h' r ''contact_info'' ci"
proof -
  define lit where
    "lit = (cells h args)(''status'' \<mapsto> JStr ''available'', ''_id'' \<mapsto> JStr uuid)"
  define h1 where "h1 = fst (alloc h lit)"
  let ?fs = "[''provider_name'', ''provider_id'', ''contact_info'']"
  have u1: "used h1 = Suc (used h)" and c1: "cells h1 (used h) = lit"
    by (simp_all add: h1_def alloc_def)
  have sd: "serviceData h args uuid = prepareDataForEncryption h1 (used h) ?fs"
    by (simp add: serviceData_def alloc_def h1_def lit_def)
  have "used h < used h1" by (simp add: u1)
  moreover have "distinct ?fs" by simp
  moreover have "\<forall>f\<in>set ?fs. \<not> includes_dot f" by (simp add: includes_dot_def)
  moreover have "''__proto__'' \<notin> set ?fs" by simp
  ultimately obtain h' where h':
    "prepareDataForEncryption h1 (used h) ?fs = (Inr (used h1), h')"
    "\<forall>f\<in>set ?fs. marked h1 (used h, f) h' (used h1, f)"
    "\<forall>k. k \<notin> set ?fs \<longrightarrow> cells h' (used h1) k = cells h1 (used h) k"
    using marker_top_level [of "used h" h1 ?fs] by blast
  have "cells h' (used h1) ''_id'' = Some (JStr uuid)"
    and "cells h' (used h1) ''status'' = Some (JStr ''available'')"
    using h'(3) by (simp_all add: c1 lit_def)
  moreover have "confidential h' (used h1) ''provider_name'' pn"
    using h'(2) assms(1) by (intro marked_confidential [of h1 "used h"]) (simp_all add: c1 lit_def)
  moreover have "confidential h' (used h1) ''provider_id'' pid"
    using h'(2) assms(2) by (intro marked_confidential [of h1 "used h"]) (simp_all add: c1 lit_def)
  moreover have "confidential h' (used h1) ''contact_info'' ci"
    using h'(2) assms(3) by (intro marked_confidential [of h1 "used h"]) (simp_all add: c1 lit_def)
  ultimately show ?thesis using sd h'(1) by auto
qed

lemma bookingData_record:
  assumes "cells h args ''customer_id'' = Some (JStr cid)"
    and "cells h args ''customer_name'' = Some (JStr cn)"
    and "cells h args ''meeting_link'' = map_option JStr ml"
  shows "\<exists>r h'. bookingData h args uuid now = (Inr r, h') \<and>
           cells h' r ''_id'' = Some (JStr uuid) \<and>
           cells h' r ''payment_status'' = Some (JStr ''pending'') \<and>
           cells h' r ''service_status'' = Some (JStr ''scheduled'') \<and>
           confidential h' r ''customer_id'' cid \<and>
           confidential h' r ''customer_name'' cn \<and>
           optional_confidential h' r ''meeting_link'' ml"
proof -
  define lit where
    "lit = (cells h args)
             (''_id'' \<mapsto> JStr uuid,
              ''booking_time'' \<mapsto> JStr now,
              ''payment_status'' \<mapsto> JStr ''pending'',
              ''service_status'' \<mapsto> JStr ''scheduled'',
              ''notes'' \<mapsto> JStr '''')"
  define h1 where "h1 = fst (alloc h lit)"
  define fs where "fs = booking_encryptedFields h args"
  have u1: "used h1 = Suc (used h)" and c1: "cells h1 (used h) = lit"
    by (simp_all add: h1_def alloc_def)
  have bd: "bookingData h args uuid now = prepareDataForEncryption h1 (used h) fs"
    by (simp add: bookingData_def alloc_def h1_def lit_def fs_def)
  have fs_cases: "fs = [''customer_id'', ''customer_name''] \<and> (ml = None \<or> ml = Some []) \<or>
                  fs = [''customer_id'', ''customer_name'', ''meeting_link''] \<and>
                    (\<exists>s. ml = Some s \<and> s \<noteq> [])"
    using assms(3) by (cases ml) (auto simp add: fs_def booking_encryptedFields_def prototype_eval)
  have "used h < used h1" by (simp add: u1)
  moreover have "distinct fs" using fs_cases by auto
  moreover have "\<forall>f\<in>set fs. \<not> includes_dot f" using fs_cases by (auto simp add: includes_dot_def)
  moreover have "''__proto__'' \<notin> set fs" using fs_cases by auto
  ultimately obtain h' where h':
    "prepareDataForEncryption h1 (used h) fs = (Inr (used h1), h')"
    "\<forall>f\<in>set fs. marked h1 (used h, f) h' (used h1, f)"
    "\<forall>k. k \<notin> set fs \<longrightarrow> cells h' (used h1) k = cells h1 (used h) k"
    using marker_top_level [of "used h" h1 fs] by blast
  have fixed: "cells h' (used h1) ''_id'' = Some (JStr uuid)"
    "cells h' (used h1) ''payment_status'' = Some (JStr ''pending'')"
    "cells h' (used h1) ''service_status'' = Some (JStr ''scheduled'')"
    using h'(3) fs_cases by (auto simp add: c1 lit_def)
  have m1: "marked h1 (used h, ''customer_id'') h' (used h1, ''customer_id'')"
    and m2: "marked h1 (used h, ''customer_name'') h' (used h1, ''customer_name'')"
    using h'(2) fs_cases by auto
  have conf: "confidential h' (used h1) ''customer_id'' cid"
    "confidential h' (used h1) ''customer_name'' cn"
    using m1 m2 assms(1,2)
    by (auto intro!: marked_confidential [of h1 "used h"] simp add: c1 lit_def)
  have link: "cells h1 (used h) ''meeting_link'' = map_option JStr ml"
    using assms(3) by (simp add: c1 lit_def)
  have opt: "optional_confidential h' (used h1) ''meeting_link'' ml"
  proof (cases ml)
    case None
    then have "''meeting_link'' \<notin> set fs" using fs_cases by auto
    then show ?thesis using h'(3) link None by simp
  next
    case (Some s)
    show ?thesis
    proof (cases "s = []")
      case True
      then have "''meeting_link'' \<notin> set fs" using fs_cases Some by auto
      then show ?thesis using h'(3) link Some True by (simp add: confidential_def)
    next
      case False
      then have "''meeting_link'' \<in> set fs" using fs_cases Some by auto
      then have "marked h1 (used h, ''meeting_link'') h' (used h1, ''meeting_link'')"
        using h'(2) by blast
      then have "confidential h' (used h1) ''meeting_link'' s"
        using link Some by (intro marked_confidential [of h1 "used h"]) simp_all
      then show ?thesis using Some by simp
    qed
  qed
  show ?thesis using bd h'(1) fixed conf opt by auto
qed

lemma feedbackData_record:
  assumes "cells h args ''agent_notes'' = map_option JStr an"
  shows "\<exists>r h'. feedbackData h args uuid = (Inr r, h') \<and>
           cells h' r ''_id'' = Some (JStr uuid) \<and>
           cells h' r ''resolution_status'' = Some (JStr ''pending'') \<and>
           optional_confidential h' r ''agent_notes'' an"
proof -
  define lit where
    "lit = (cells h args)
             (''_id'' \<mapsto> JStr uuid, ''resolution_status'' \<mapsto> JStr ''pending'')"
  define h1 where "h1 = fst (alloc h lit)"
  define fs where "fs = feedback_encryptedFields h args"
  have u1: "used h1 = Suc (used h)" and c1: "cells h1 (used h) = lit"
    by (simp_all add: h1_def alloc_def)
  have fd: "feedbackData h args uuid = prepareDataForEncryption h1 (used h) fs"
    by (simp add: feedbackData_def alloc_def h1_def lit_def fs_def)
  have fs_cases: "fs = [] \<and> (an = None \<or> an = Some []) \<or>
                  fs = [''agent_notes''] \<and> (\<exists>s. an = Some s \<and> s \<noteq> [])"
    using assms by (cases an) (auto simp add: fs_def feedback_encryptedFields_def prototype_eval)
  have "used h < used h1" by (simp add: u1)
  moreover have "distinct fs" using fs_cases by auto
  moreover have "\<forall>f\<in>set fs. \<not> includes_dot f" using fs_cases by (auto simp add: includes_dot_def)
  moreover have "''__proto__'' \<notin> set fs" using fs_cases by auto
  ultimately obtain h' where h':
    "prepareDataForEncryption h1 (used h) fs = (Inr (used h1), h')"
    "\<forall>f\<in>set fs. marked h1 (used h, f) h' (used h1, f)"
    "\<forall>k. k \<notin> set fs \<longrightarrow> cells h' (used h1) k = cells h1 (used h) k"
    using marker_top_level [of "used h" h1 fs] by blast
  have fixed: "cells h' (used h1) ''_id'' = Some (JStr uuid)"
    "cells h' (used h1) ''resolution_status'' = Some (JStr ''pending'')"
    using h'(3) fs_cases by (auto simp add: c1 lit_def)
  have an_cell: "cells h1 (used h) ''agent_notes'' = map_option JStr an"
    using assms by (simp add: c1 lit_def)
  have opt: "optional_confidential h' (used h1) ''agent_notes'' an"
  proof (cases an)
    case None
    then have "''agent_notes'' \<notin> set fs" using fs_cases by auto
    then show ?thesis using h'(3) an_cell None by simp
  next
    case (Some s)
    show ?thesis
    proof (cases "s = []")
      case True
      then have "''agent_notes'' \<notin> set fs" using fs_cases Some by auto
      then show ?thesis using h'(3) an_cell Some True by (simp add: confidential_def)
    next
      case False
      then have "''agent_notes'' \<in> set fs" using fs_cases Some by auto
      then have "marked h1 (used h, ''agent_notes'') h' (used h1, ''agent_notes'')"
        using h'(2) by blast
      then have "confidential h' (used h1) ''agent_notes'' s"
        using an_cell Some by (intro marked_confidential [of h1 "used h"]) simp_all
      then show ?thesis using Some by simp
    qed
  qed
  show ?thesis using fd h'(1) fixed opt by auto
qed

text \<open>
  The builders list top-level fields only, none of them \<open>__proto__\<close>: whatever
  the input object is, they return a record, so the branch of the actions for
  a runtime error of a builder is never taken.
\<close>

lemma record_builders_return:
  "(\<exists>r h'. serviceData h args uuid = (Inr r, h')) \<and>
   (\<exists>r h'. bookingData h args uuid now = (Inr r, h')) \<and>
   (\<exists>r h'. feedbackData h args uuid = (Inr r, h'))"
proof -
  have run: "\<exists>r h'. prepareDataForEncryption (fst (alloc h lit)) (used h) fs = (Inr r, h')"
    if "\<forall>f\<in>set fs. \<not> includes_dot f" "''__proto__'' \<notin> set fs" for lit fs
    using marker_top_level_run [of "used h" "fst (alloc h lit)" fs] that
    by (simp add: alloc_def)
  have "\<exists>r h'. serviceData h args uuid = (Inr r, h')"
    using run [of "[''provider_name'', ''provider_id'', ''contact_info'']"]
    by (simp add: serviceData_def includes_dot_def alloc_def)
  moreover have "\<exists>r h'. bookingData h args uuid now = (Inr r, h')"
    using run [of "booking_encryptedFields h args"]
    by (simp add: bookingData_def booking_encryptedFields_def includes_dot_def alloc_def)
  moreover have "\<exists>r h'. feedbackData h args uuid = (Inr r, h')"
    using run [of "feedback_encryptedFields h args"]
    by (simp add: feedbackData_def feedback_encryptedFields_def includes_dot_def alloc_def)
  ultimately show ?thesis by blast
qed

text \<open>
  Claim C3, as the code has it. For an input object that has the confidential
  fields of its kind as strings (the optional one as a string or not at all),
  each record builder returns a record with the identifier that the generator
  returned as \<open>_id\<close>, the default status fields of the kind, every confidential field
  with a non-empty value wrapped in the marker, and every confidential field
  whose value is the empty string left as that plain string. An optional
  confidential field that was not supplied is not a property of the record.
\<close>

theorem record_builders:
  "(cells h listing ''provider_name'' = Some (JStr pn) \<longrightarrow>
    cells h listing ''provider_id'' = Some (JStr pid) \<longrightarrow>
    cells h listing ''contact_info'' = Some (JStr ci) \<longrightarrow>
      (\<exists>r h'. serviceData h listing uuid = (Inr r, h') \<and>
         cells h' r ''_id'' = Some (JStr uuid) \<and>
         cells h' r ''status'' = Some (JStr ''available'') \<and>
         confidential h' r ''provider_name'' pn \<and>
         confidential h' r ''provider_id'' pid \<and>
         confidential h' r ''contact_info'' ci)) \<and>
   (cells h booking ''customer_id'' = Some (JStr cid) \<longrightarrow>
    cells h booking ''customer_name'' = Some (JStr cn) \<longrightarrow>
    cells h booking ''meeting_link'' = map_option JStr ml \<longrightarrow>
      (\<exists>r h'. bookingData h booking uuid now = (Inr r, h') \<and>
         cells h' r ''_id'' = Some (JStr uuid) \<and>
         cells h' r ''payment_status'' = Some (JStr ''pending'') \<and>
         cells h' r ''service_status'' = Some (JStr ''scheduled'') \<and>
         confidential h' r ''customer_id'' cid \<and>
         confidential h' r ''customer_name'' cn \<and>
         optional_confidential h' r ''meeting_link'' ml)) \<and>
   (cells h feedback ''agent_notes'' = map_option JStr an \<longrightarrow>
      (\<exists>r h'. feedbackData h feedback uuid = (Inr r, h') \<and>
         cells h' r ''_id'' = Some (JStr uuid) \<and>
         cells h' r ''resolution_status'' = Some (JStr ''pending'') \<and>
         optional_confidential h' r ''agent_notes'' an))"
  using serviceData_record [of h listing pn pid ci uuid]
    bookingData_record [of h booking cid cn ml uuid now]
    feedbackData_record [of h feedback an uuid]
  by blast

theorem record_builders_witness:
  "(\<exists>r h'. serviceData example_inputs 0 ''123e4567-e89b-42d3-a456-426614174000'' = (Inr r, h') \<and>
      cells h' r ''_id'' = Some (JStr ''123e4567-e89b-42d3-a456-426614174000'') \<and>
      cells h' r ''status'' = Some (JStr ''available'') \<and>
      wrapped h' r ''provider_name'' (JStr ''Ana'') \<and>
      wrapped h' r ''provider_id'' (JStr ''p-1'') \<and>
      cells h' r ''contact_info'' = Some (JStr '''')) \<and>
   (\<exists>r h'. bookingData example_inputs 4 ''123e4567-e89b-42d3-a456-426614174000''
        ''2024-05-01T09:00:00.000Z'' = (Inr r, h') \<and>
      cells h' r ''payment_status'' = Some (JStr ''pending'') \<and>
      cells h' r ''service_status'' = Some (JStr ''scheduled'') \<and>
      wrapped h' r ''customer_id'' (JStr ''c-1'') \<and>
      wrapped h' r ''customer_name'' (JStr ''Bo'') \<and>
      cells h' r ''meeting_link'' = None) \<and>
   (\<exists>r h'. feedbackData example_inputs 5 ''123e4567-e89b-42d3-a456-426614174000'' = (Inr r, h') \<and>
      cells h' r ''resolution_status'' = Some (JStr ''pending'') \<and>
      wrapped h' r ''agent_notes'' (JStr ''calm''))"
proof -
  have l: "cells example_inputs 0 ''provider_name'' = Some (JStr ''Ana'')"
    "cells example_inputs 0 ''provider_id'' = Some (JStr ''p-1'')"
    "cells example_inputs 0 ''contact_info'' = Some (JStr '''')"
    by (simp_all add: example_inputs_def)
  have b: "cells example_inputs 4 ''customer_id'' = Some (JStr ''c-1'')"
    "cells example_inputs 4 ''customer_name'' = Some (JStr ''Bo'')"
    "cells example_inputs 4 ''meeting_link'' = map_option JStr None"
    by (simp_all add: example_inputs_def)
  have f: "cells example_inputs 5 ''agent_notes'' = map_option JStr (Some ''calm'')"
    by (simp add: example_inputs_def)
  note inst = record_builders [of example_inputs 0 "''Ana''" "''p-1''" "''''"
        "''123e4567-e89b-42d3-a456-426614174000''" 4 "''c-1''" "''Bo''" None
        "''2024-05-01T09:00:00.000Z''" 5 "Some ''calm''"]
  have "\<exists>r h'. serviceData example_inputs 0 ''123e4567-e89b-42d3-a456-426614174000'' = (Inr r, h') \<and>
      cells h' r ''_id'' = Some (JStr ''123e4567-e89b-42d3-a456-426614174000'') \<and>
      cells h' r ''status'' = Some (JStr ''available'') \<and>
      wrapped h' r ''provider_name'' (JStr ''Ana'') \<and>
      wrapped h' r ''provider_id'' (JStr ''p-1'') \<and>
      cells h' r ''contact_info'' = Some (JStr '''')"
    using inst l by (simp add: confidential_def)
  moreover have "\<exists>r h'. bookingData example_inputs 4 ''123e4567-e89b-42d3-a456-426614174000''
        ''2024-05-01T09:00:00.000Z'' = (Inr r, h') \<and>
      cells h' r ''payment_status'' = Some (JStr ''pending'') \<and>
      cells h' r ''service_status'' = Some (JStr ''scheduled'') \<and>
      wrapped h' r ''customer_id'' (JStr ''c-1'') \<and>
      wrapped h' r ''customer_name'' (JStr ''Bo'') \<and>
      cells h' r ''meeting_link'' = None"
  proof -
    from inst b obtain r h' where "bookingData example_inputs 4 ''123e4567-e89b-42d3-a456-426614174000''
        ''2024-05-01T09:00:00.000Z'' = (Inr r, h')"
      "cells h' r ''payment_status'' = Some (JStr ''pending'')"
      "cells h' r ''service_status'' = Some (JStr ''scheduled'')"
      "confidential h' r ''customer_id'' ''c-1''"
      "confidential h' r ''customer_name'' ''Bo''"
      "optional_confidential h' r ''meeting_link'' None"
      by blast
    then show ?thesis by (simp add: confidential_def)
  qed
  moreover have "\<exists>r h'. feedbackData example_inputs 5 ''123e4567-e89b-42d3-a456-426614174000'' = (Inr r, h') \<and>
      cells h' r ''resolution_status'' = Some (JStr ''pending'') \<and>
      wrapped h' r ''agent_notes'' (JStr ''calm'')"
  proof -
    from inst f obtain r h' where "feedbackData example_inputs 5 ''123e4567-e89b-42d3-a456-426614174000'' = (Inr r, h')"
      "cells h' r ''resolution_status'' = Some (JStr ''pending'')"
      "optional_confidential h' r ''agent_notes'' (Some ''calm'')"
      by blast
    then show ?thesis by (simp add: confidential_def)
  qed
  ultimately show ?thesis by blast
qed

text \<open>
  Claim C3 as stated fails on a valid minimal input: the listing of
  \<open>example_inputs\<close> has the empty string as contact information (the schema
  admits every string), and the built record holds that field as the plain
  empty string, not wrapped.
\<close>

theorem serviceData_leaves_empty_contact_unwrapped:
  "cells example_inputs 0 ''contact_info'' = Some (JStr '''') \<and>
   fst (serviceData example_inputs 0 ''123e4567-e89b-42d3-a456-426614174000'') = Inr 7 \<and>
   cells (snd (serviceData example_inputs 0 ''123e4567-e89b-42d3-a456-426614174000'')) 7 ''contact_info'' = Some (JStr '''')"
  by (simp add: serviceData_def marker_eval example_inputs_def)

section \<open>Input validation\<close>










section \<open>The vault gateway and the action surface\<close>

lemma initSecretVault_SCHEMA_IDS:
  "SCHEMA_IDS (snd (initSecretVault w st)) = SCHEMA_IDS st"
  by (simp add: initSecretVault_def split: connect_outcome.splits)

lemma initSecretVault_failure:
  "fst (initSecretVault w st) = Inl e \<Longrightarrow> \<exists>m. e = InitializationError m"
  by (auto simp add: initSecretVault_def split: if_splits connect_outcome.splits)

lemma checkSchemaId_cong:
  "SCHEMA_IDS st' = SCHEMA_IDS st \<Longrightarrow> checkSchemaId st' kind = checkSchemaId st kind"
  by (simp add: checkSchemaId_def)

lemma checkSchemaId_missing:
  "\<not> configured st kind \<Longrightarrow> checkSchemaId st kind = Inl (MissingSchemaError kind)"
  by (auto simp add: checkSchemaId_def configured_def split: option.splits)

lemma checkSchemaId_configured:
  "configured st kind \<Longrightarrow> \<exists>i. checkSchemaId st kind = Inr i"
  by (auto simp add: checkSchemaId_def configured_def)

lemma message_InitializationError:
  "message (InitializationError m) = ''Failed to initialize SecretVault: '' @ m"
  by (simp add: InitializationError_def)

lemma message_MissingSchemaError:
  "message (MissingSchemaError kind) =
     ''Schema ID for '' @ kind @ '' is missing. Please create the schema first.''"
  by (simp add: MissingSchemaError_def)

lemma is_Nillion_simps:
  "is_NillionSecretVaultError (InitializationError m)"
  "is_NillionSecretVaultError (MissingSchemaError kind)"
  "is_NillionSecretVaultError (InvalidDataError m)"
  by (simp_all add: InitializationError_def MissingSchemaError_def InvalidDataError_def)

lemmas action_defs =
  configureSecretVault_def createSchema_def createServiceListing_def queryServiceListings_def
  createBooking_def updateBookingStatus_def getBookingDetails_def createFeedback_def
  resolveFeedback_def getFeedback_def

lemmas try_defs =
  configureSecretVault_try_def createSchema_try_def createServiceListing_try_def
  queryServiceListings_try_def createBooking_try_def updateBookingStatus_try_def
  getBookingDetails_try_def createFeedback_try_def resolveFeedback_try_def getFeedback_try_def

text \<open>
  Claim C10. An action that needs a schema identifier initialises the vault
  first. When the initialisation fails, the action returns the message of the
  initialisation failure, whatever the table of schema identifiers holds, and
  this string is not a missing-schema message of any kind.
\<close>

theorem initialization_failure_precedes_schema_check:
  assumes "fst (initSecretVault w st) = Inl e" and "required_schemas call \<noteq> []"
  shows "fst (invoke w st h call) = Inr (''Error: '' @ message e) \<and>
         (\<exists>m. message e = ''Failed to initialize SecretVault: '' @ m) \<and>
         (\<forall>kind. fst (invoke w st h call)
                  \<noteq> Inr (''Error: '' @ message (MissingSchemaError kind)))"
proof -
  obtain m where e: "e = InitializationError m"
    using assms(1) initSecretVault_failure by blast
  obtain st1 where init: "initSecretVault w st = (Inl e, st1)"
    using assms(1) by (cases "initSecretVault w st") auto
  have res: "fst (invoke w st h call) = Inr (''Error: '' @ message e)"
    using assms(2) init e
    by (cases call) (simp_all add: returned_def action_defs try_defs is_Nillion_simps)
  have form: "message e = ''Failed to initialize SecretVault: '' @ m"
    by (simp add: e message_InitializationError)
  have "''Error: '' @ message e \<noteq> ''Error: '' @ message (MissingSchemaError kind)" for kind
    by (simp add: form message_MissingSchemaError)
  then show ?thesis using res form by auto
qed

theorem initialization_failure_precedes_schema_check_witness:
  "\<not> configured fresh_provider ''BOOKING'' \<and>
   fst (invoke offline_world fresh_provider example_inputs (CreateBooking 4))
     = Inr ''Error: Failed to initialize SecretVault: connect ECONNREFUSED''"
proof -
  have init: "fst (initSecretVault offline_world fresh_provider)
                = Inl (InitializationError ''connect ECONNREFUSED'')"
    by (simp add: initSecretVault_def offline_world_def example_world_def fresh_provider_def)
  have req: "required_schemas (CreateBooking 4) \<noteq> []" by simp
  have "\<not> configured fresh_provider ''BOOKING''"
    by (simp add: configured_def fresh_provider_def)
  then show ?thesis
    using initialization_failure_precedes_schema_check [OF init req, of example_inputs]
    by (simp add: message_InitializationError)
qed

lemma singleton_split:
  "[a] = pre @ k # post \<Longrightarrow> pre = [] \<and> k = a \<and> post = []"
  by (cases pre) auto

lemma pair_split:
  "[a, b] = pre @ k # post \<Longrightarrow> (pre = [] \<and> k = a) \<or> (pre = [a] \<and> k = b)"
  by (cases pre; cases "tl pre") auto

text \<open>
  Claim C7, as the code has it. When the initialisation of the vault succeeds
  and an action that needs schema identifiers finds one of them not configured
  (the kinds it checks before are configured), the action returns the
  missing-schema message that names this kind.
\<close>

theorem missing_schema_is_reported:
  assumes "fst (initSecretVault w st) = Inr ()"
    and "required_schemas call = pre @ kind # post"
    and "\<forall>k\<in>set pre. configured st k"
    and "\<not> configured st kind"
  shows "fst (invoke w st h call) =
           Inr (''Error: Schema ID for '' @ kind @
                '' is missing. Please create the schema first.'')"
proof -
  obtain st1 where init: "initSecretVault w st = (Inr (), st1)"
    using assms(1) by (cases "initSecretVault w st") auto
  have ids: "SCHEMA_IDS st1 = SCHEMA_IDS st"
    using initSecretVault_SCHEMA_IDS [of w st] init by simp
  have missing: "checkSchemaId st1 kind = Inl (MissingSchemaError kind)"
    using assms(4) checkSchemaId_missing [of st kind] checkSchemaId_cong [OF ids] by simp
  have before: "\<exists>i. checkSchemaId st1 k = Inr i" if "k \<in> set pre" for k
    using that assms(3) checkSchemaId_configured [of st k] checkSchemaId_cong [OF ids] by simp
  note msg = message_MissingSchemaError is_Nillion_simps
  show ?thesis
  proof (cases call)
    case (CreateServiceListing a)
    then have "kind = ''SERVICE_LISTING''" using assms(2) singleton_split by fastforce
    then show ?thesis
      using CreateServiceListing init missing
      by (simp add: returned_def createServiceListing_def createServiceListing_try_def msg)
  next
    case (QueryServiceListings a)
    then have "kind = ''SERVICE_LISTING''" using assms(2) singleton_split by fastforce
    then show ?thesis
      using QueryServiceListings init missing
      by (simp add: returned_def queryServiceListings_def queryServiceListings_try_def msg)
  next
    case (CreateBooking a)
    then have "(pre = [] \<and> kind = ''BOOKING'') \<or>
               (pre = [''BOOKING''] \<and> kind = ''SERVICE_LISTING'')"
      using assms(2) pair_split by fastforce
    then show ?thesis
    proof
      assume "pre = [] \<and> kind = ''BOOKING''"
      then show ?thesis
        using CreateBooking init missing
        by (simp add: returned_def createBooking_def createBooking_try_def msg)
    next
      assume k: "pre = [''BOOKING''] \<and> kind = ''SERVICE_LISTING''"
      then obtain i where "checkSchemaId st1 ''BOOKING'' = Inr i" using before by auto
      then show ?thesis
        using CreateBooking init missing k
        by (simp add: returned_def createBooking_def createBooking_try_def msg)
    qed
  next
    case (UpdateBookingStatus a)
    then have "kind = ''BOOKING''" using assms(2) singleton_split by fastforce
    then show ?thesis
      using UpdateBookingStatus init missing
      by (simp add: returned_def updateBookingStatus_def updateBookingStatus_try_def msg)
  next
    case (GetBookingDetails a)
    then have "kind = ''BOOKING''" using assms(2) singleton_split by fastforce
    then show ?thesis
      using GetBookingDetails init missing
      by (simp add: returned_def getBookingDetails_def getBookingDetails_try_def msg)
  next
    case (CreateFeedback a)
    then have "kind = ''FEEDBACK''" using assms(2) singleton_split by fastforce
    then show ?thesis
      using CreateFeedback init missing
      by (simp add: returned_def createFeedback_def createFeedback_try_def msg)
  next
    case (ResolveFeedback a)
    then have "kind = ''FEEDBACK''" using assms(2) singleton_split by fastforce
    then show ?thesis
      using ResolveFeedback init missing
      by (simp add: returned_def resolveFeedback_def resolveFeedback_try_def msg)
  next
    case (GetFeedback a)
    then have "kind = ''FEEDBACK''" using assms(2) singleton_split by fastforce
    then show ?thesis
      using GetFeedback init missing
      by (simp add: returned_def getFeedback_def getFeedback_try_def msg)
  qed (use assms(2) in simp_all)
qed

lemma example_world_connects:
  "fst (initSecretVault example_world fresh_provider) = Inr ()"
  "fst (initSecretVault example_world provisioned_provider) = Inr ()"
  by (simp_all add: initSecretVault_def example_world_def fresh_provider_def
      provisioned_provider_def)

theorem missing_schema_is_reported_witness:
  "fst (invoke example_world fresh_provider example_inputs (CreateBooking 4))
     = Inr ''Error: Schema ID for BOOKING is missing. Please create the schema first.''"
proof -
  have req: "required_schemas (CreateBooking 4) = [] @ ''BOOKING'' # [''SERVICE_LISTING'']"
    by simp
  have pre: "\<forall>k\<in>set []. configured fresh_provider k" by simp
  have miss: "\<not> configured fresh_provider ''BOOKING''"
    by (simp add: configured_def fresh_provider_def)
  show ?thesis
    using missing_schema_is_reported [OF example_world_connects(1) req pre miss, of example_inputs]
    by simp
qed

text \<open>
  Claim C7 as stated fails when the vault cannot be initialised: with no schema
  identifier configured and a storage service that refuses the connection,
  \<open>get-booking-details\<close> returns the initialisation failure, not a
  missing-schema message.
\<close>

theorem missing_schema_hidden_by_initialization_failure:
  "SCHEMA_IDS fresh_provider ''BOOKING'' = Some '''' \<and>
   fst (invoke offline_world fresh_provider example_inputs
          (GetBookingDetails \<lparr>get_booking_details_args.booking_id = ''b-1''\<rparr>))
     = Inr ''Error: Failed to initialize SecretVault: connect ECONNREFUSED''"
  by (simp add: returned_def getBookingDetails_def getBookingDetails_try_def initSecretVault_def
      offline_world_def example_world_def fresh_provider_def InitializationError_def)

text \<open>
  Claim C9. When \<open>configure-secretvault\<close> is invoked and the connection cannot
  be established with the supplied values, the provider nevertheless keeps the
  supplied node list and credentials (the previous ones are gone), it is left
  uninitialised, the action returns the initialisation failure, and the next
  initialisation, in whatever state the storage service then is, connects with
  the supplied values.
\<close>

theorem reconfiguration_is_not_atomic:
  assumes "sv_connect w (configure_args.nodes args) (configure_args.credentials args)
             \<noteq> Connected"
  shows "provider.nodes (snd (configureSecretVault w st args)) = configure_args.nodes args \<and>
         provider.credentials (snd (configureSecretVault w st args))
           = configure_args.credentials args \<and>
         \<not> initialized (snd (configureSecretVault w st args)) \<and>
         (\<exists>m. fst (configureSecretVault w st args)
                = ''Error: Failed to initialize SecretVault: '' @ m) \<and>
         (\<forall>w'. (fst (initSecretVault w' (snd (configureSecretVault w st args))) = Inr ()) =
                (sv_connect w' (configure_args.nodes args) (configure_args.credentials args)
                   = Connected))"
  using assms
  by (cases "sv_connect w (configure_args.nodes args) (configure_args.credentials args)")
     (auto simp add: configureSecretVault_def configureSecretVault_try_def initSecretVault_def
        InitializationError_def split: connect_outcome.splits)

theorem reconfiguration_is_not_atomic_witness:
  "initialized connected_provider \<and>
   provider.nodes (snd (configureSecretVault offline_world connected_provider new_configuration))
     = configure_args.nodes new_configuration \<and>
   provider.nodes (snd (configureSecretVault offline_world connected_provider new_configuration))
     \<noteq> provider.nodes connected_provider \<and>
   \<not> initialized (snd (configureSecretVault offline_world connected_provider new_configuration))"
proof -
  have fails: "sv_connect offline_world (configure_args.nodes new_configuration)
                 (configure_args.credentials new_configuration) \<noteq> Connected"
    by (simp add: offline_world_def example_world_def)
  have old: "provider.nodes connected_provider
               = [VObj [(''url'', VStr ''https://node1''), (''did'', VStr ''did:nil:1'')]]"
    by (simp add: connected_provider_def provisioned_provider_def fresh_provider_def)
  have new: "configure_args.nodes new_configuration
               = [VObj [(''url'', VStr ''https://node9''), (''did'', VStr ''did:nil:9'')]]"
    by (simp add: new_configuration_def)
  have "initialized connected_provider" by (simp add: connected_provider_def)
  then show ?thesis
    using reconfiguration_is_not_atomic [OF fails, of connected_provider] old new by simp
qed

text \<open>
  Claim C8, as the code has it. Every action but \<open>generate-uuid\<close> has a \<open>try\<close>
  block and returns a string whatever the block does. When the block returns,
  the action returns its string. When the block throws an error of one of the
  provider's own classes (an initialisation failure, a missing schema
  identifier, an invalid schema type), the action returns \<open>Error: \<close> followed by
  the message. When it throws any other error (what the storage client, the
  identifier generator or the runtime raises), the action returns the prefix of
  its own \<open>catch\<close> clause followed by the message, such as
  \<open>Schema creation error: \<close> or \<open>Error creating booking: \<close>. The state is
  the one the block left. The action \<open>generate-uuid\<close> has no such boundary: it
  returns what the generator returns, and what the generator throws reaches the
  caller.
\<close>

theorem action_error_boundary:
  "(\<forall>t. try_block w st h call = Guarded t \<longrightarrow>
      invoke w st h call =
        (Inr (case fst t of
                Inr s \<Rightarrow> s
              | Inl e \<Rightarrow>
                  if is_NillionSecretVaultError e then ''Error: '' @ message e
                  else catch_prefix call @ message e),
         snd t)) \<and>
   (try_block w st h call = Unguarded \<longrightarrow>
      call = GenerateUuid \<and> invoke w st h call = (uuidv4 w, st))"
  by (cases call)
     (auto simp add: returned_def action_defs generateUuid_def split: prod.splits sum.splits)

lemma bookingData_example:
  "fst (bookingData example_inputs 4 uuid now) = Inr 7"
  by (simp add: bookingData_def booking_encryptedFields_def marker_eval example_inputs_def)

theorem action_error_boundary_witness:
  "try_block failing_write_world provisioned_provider example_inputs (CreateBooking 4)
     = Guarded (createBooking_try failing_write_world provisioned_provider example_inputs 4) \<and>
   fst (createBooking_try failing_write_world provisioned_provider example_inputs 4)
     = Inl (OtherError ''write failed'') \<and>
   fst (invoke failing_write_world provisioned_provider example_inputs (CreateBooking 4))
     = Inr ''Error creating booking: write failed'' \<and>
   try_block no_entropy_world provisioned_provider example_inputs GenerateUuid = Unguarded \<and>
   fst (invoke no_entropy_world provisioned_provider example_inputs GenerateUuid)
     = Inl (OtherError ''crypto.getRandomValues() not supported'')"
proof -
  define sv where
    "sv = \<lparr>w_nodes = provider.nodes provisioned_provider,
            w_credentials = provider.credentials provisioned_provider\<rparr>"
  define st1 where
    "st1 = provisioned_provider\<lparr>secretVaultWrapper := Some sv, initialized := True\<rparr>"
  have init: "initSecretVault failing_write_world provisioned_provider = (Inr (), st1)"
    by (simp add: initSecretVault_def failing_write_world_def example_world_def
        provisioned_provider_def fresh_provider_def st1_def sv_def)
  have c1: "checkSchemaId st1 ''BOOKING'' = Inr ''bk-1''"
    and c2: "checkSchemaId st1 ''SERVICE_LISTING'' = Inr ''sl-1''"
    by (simp_all add: checkSchemaId_def st1_def provisioned_provider_def)
  have wr: "the_wrapper failing_write_world st1 ''writeToNodes'' = Inr sv"
    by (simp add: the_wrapper_def st1_def)
  have id: "uuidv4 failing_write_world = Inr ''123e4567-e89b-42d3-a456-426614174000''"
    by (simp add: failing_write_world_def example_world_def)
  obtain h' where bd:
    "bookingData example_inputs 4 ''123e4567-e89b-42d3-a456-426614174000''
       (now_iso failing_write_world) = (Inr 7, h')"
    using bookingData_example
      [of "''123e4567-e89b-42d3-a456-426614174000''" "now_iso failing_write_world"]
    by (cases "bookingData example_inputs 4 ''123e4567-e89b-42d3-a456-426614174000''
                 (now_iso failing_write_world)") auto
  have wfail: "sv_writeToNodes failing_write_world sv h' 7 = Inl (OtherError ''write failed'')"
    by (simp add: failing_write_world_def)
  have t: "fst (createBooking_try failing_write_world provisioned_provider example_inputs 4)
             = Inl (OtherError ''write failed'')"
    by (simp add: createBooking_try_def init c1 c2 id bd wr wfail)
  have g: "try_block failing_write_world provisioned_provider example_inputs (CreateBooking 4)
     = Guarded (createBooking_try failing_write_world provisioned_provider example_inputs 4)"
    by simp
  have u: "try_block no_entropy_world provisioned_provider example_inputs GenerateUuid = Unguarded"
    by simp
  have "fst (invoke failing_write_world provisioned_provider example_inputs (CreateBooking 4))
     = Inr ''Error creating booking: write failed''"
    using action_error_boundary
      [of failing_write_world provisioned_provider example_inputs "CreateBooking 4"] g t
    by simp
  moreover have "fst (invoke no_entropy_world provisioned_provider example_inputs GenerateUuid)
     = Inl (OtherError ''crypto.getRandomValues() not supported'')"
    using action_error_boundary
      [of no_entropy_world provisioned_provider example_inputs GenerateUuid] u
    by (simp add: no_entropy_world_def)
  ultimately show ?thesis using g t u by simp
qed

text \<open>
  Claim C8 as stated fails: when the storage service rejects the creation of a
  schema with an error of its own, \<open>create-schema\<close> returns a string that does
  not have the form \<open>Error: <description>\<close>.
\<close>

theorem schema_creation_failure_message:
  "fst (invoke failing_schema_world fresh_provider example_inputs
          (CreateSchema \<lparr>schemaType = ''BOOKING'', title = None\<rparr>))
   = Inr ''Schema creation error: quota exceeded''"
  by (simp add: returned_def createSchema_def createSchema_try_def initSecretVault_def
      getSchemaByType_def the_wrapper_def failing_schema_world_def example_world_def
      fresh_provider_def)

section \<open>The response of \<open>get-booking-details\<close>\<close>

text \<open>
  Claim C6, as the code has it. With the vault initialised and the booking schema
  identifier configured, the response is the fixed example payload except for
  its \<open>_id\<close> member, which is the supplied identifier (as a JSON string): the
  text before and the text after that value do not depend on the identifier.
\<close>

theorem getBookingDetails_echoes_identifier:
  assumes "fst (initSecretVault w st) = Inr ()" and "configured st ''BOOKING''"
  shows "fst (getBookingDetails w st args) =
           booking_details_before @
           json_quote (get_booking_details_args.booking_id args) @
           booking_details_after"
proof -
  obtain st1 where init: "initSecretVault w st = (Inr (), st1)"
    using assms(1) by (cases "initSecretVault w st") auto
  have ids: "SCHEMA_IDS st1 = SCHEMA_IDS st"
    using initSecretVault_SCHEMA_IDS [of w st] init by simp
  obtain i where ok: "checkSchemaId st1 ''BOOKING'' = Inr i"
    using assms(2) checkSchemaId_configured [of st "''BOOKING''"] checkSchemaId_cong [OF ids]
    by auto
  show ?thesis
    by (simp add: getBookingDetails_def getBookingDetails_try_def init ok json_text_def
        mockBooking_def booking_details_before_def booking_details_after_def json_member_def)
qed

theorem getBookingDetails_echoes_identifier_witness:
  "fst (getBookingDetails example_world provisioned_provider
          \<lparr>get_booking_details_args.booking_id = ''b-1''\<rparr>)
   = booking_details_before @ json_quote ''b-1'' @ booking_details_after"
proof -
  have c: "configured provisioned_provider ''BOOKING''"
    by (simp add: configured_def provisioned_provider_def)
  show ?thesis
    using getBookingDetails_echoes_identifier [OF example_world_connects(2) c] by simp
qed

text \<open>
  Claim C6 as stated fails: two different identifiers give two different
  responses.
\<close>

theorem getBookingDetails_depends_on_identifier:
  "fst (getBookingDetails example_world provisioned_provider
          \<lparr>get_booking_details_args.booking_id = ''a''\<rparr>)
   \<noteq> fst (getBookingDetails example_world provisioned_provider
          \<lparr>get_booking_details_args.booking_id = ''b''\<rparr>)"
  by (simp add: getBookingDetails_def getBookingDetails_try_def initSecretVault_def
      checkSchemaId_def example_world_def provisioned_provider_def fresh_provider_def
      json_text_def mockBooking_def json_quote_def json_escape_def dquote_def backslash_def)

end
